theory Spec2Isabelle
  imports Main "HOL-Library.AList"
begin

section \<open>The data-science project scaffolder (src/main.py)\<close>

text \<open>
  The program is one Python module: two argument checkers, the teardown
  procedure \<open>safe_delete\<close>, the orchestrator \<open>main\<close> and the command-line
  entry block. Everything it does is an effect on the file system or the start
  of an external program, so the embedding is a state-passing one:
  \<^item> the file system is a tree of regular files and directories; a path is the
    list of the names on the way from the root;
  \<^item> a statement is a function from the state to an outcome and the state it
    leaves behind; a raised exception stops the run and keeps the state
    reached so far;
  \<^item> the host (operating-system family, interpreter, path resolution, and what
    the external programs do to the file system) is a parameter.
  Logging is not modelled. Python strings are modelled as byte strings; the
  seven characters tested by \<open>validate_name\<close> are ASCII, and no byte of a
  multi-byte UTF-8 sequence is ASCII, so the test agrees with Python's on
  every name.
\<close>

subsection \<open>Module constants\<close>

definition PACKAGES :: "string list" where
  "PACKAGES = [''numpy'', ''pandas'',
               ''openpyxl'',
               ''scikit-learn'',
               ''matplotlib'', ''seaborn'',
               ''notebook'']"

definition ignore_file_types :: "string list" where
  "ignore_file_types =
     [''*.txt'', ''*.csv'', ''*.xlsx'', ''*.xls'', ''*.ipynb_checkpoints'', ''*.vscode'', ''.git'']"

subsection \<open>Python and library values\<close>

datatype error =
    ArgumentTypeError string
  | ArgumentError string
  | FileNotFoundError
  | FileExistsError
  | NotADirectoryError
  | IsADirectoryError
  | OSError_ENOTEMPTY
  | OSError_EBUSY
  | OSError_spawn

text \<open>\<open>sep.join(xs)\<close> of Python.\<close>

fun str_join :: "string \<Rightarrow> string list \<Rightarrow> string" where
  "str_join sep [] = []"
| "str_join sep [x] = x"
| "str_join sep (x # y # ys) = x @ sep @ str_join sep (y # ys)"

text \<open>
  The part of \<open>nbformat.v4\<close> the program uses: a notebook is a format number
  and a list of cells; a cell is a markdown or a code cell carrying its source.
  \<open>nbformat.write\<close> serialises the document to JSON; the file content keeps the
  document itself.
\<close>

datatype cell = Markdown_cell string | Code_cell string

record notebook =
  nbformat :: nat
  cells :: "cell list"

definition new_notebook :: notebook where
  "new_notebook = \<lparr>nbformat = 4, cells = []\<rparr>"

definition new_markdown_cell :: "string \<Rightarrow> cell" where
  "new_markdown_cell source = Markdown_cell source"

definition new_code_cell :: "string \<Rightarrow> cell" where
  "new_code_cell source = Code_cell source"

subsection \<open>The file system\<close>

datatype content = Text string | Notebook notebook

datatype node = File content | Dir "(string \<times> node) list"

type_synonym path = "string list"

fun lookup :: "node \<Rightarrow> path \<Rightarrow> node option" where
  "lookup n [] = Some n"
| "lookup (File c) (x # xs) = None"
| "lookup (Dir es) (x # xs) = (case map_of es x of None \<Rightarrow> None | Some n \<Rightarrow> lookup n xs)"

text \<open>
  \<open>update_dir d f r\<close> rewrites the listing of the directory at \<open>d\<close> with \<open>f\<close>;
  it fails where the walk to \<open>d\<close> fails or where \<open>f\<close> does.
\<close>

fun update_dir ::
  "path \<Rightarrow> ((string \<times> node) list \<Rightarrow> error + (string \<times> node) list) \<Rightarrow> node \<Rightarrow> error + node"
where
  "update_dir [] f (Dir es) = (case f es of Inl e \<Rightarrow> Inl e | Inr es' \<Rightarrow> Inr (Dir es'))"
| "update_dir [] f (File c) = Inl NotADirectoryError"
| "update_dir (x # xs) f (File c) = Inl NotADirectoryError"
| "update_dir (x # xs) f (Dir es) =
     (case map_of es x of
        None \<Rightarrow> Inl FileNotFoundError
      | Some n \<Rightarrow>
          (case update_dir xs f n of
             Inl e \<Rightarrow> Inl e
           | Inr n' \<Rightarrow> Inr (Dir (AList.update x n' es))))"

text \<open>
  An operation on the entry named by a path works on the listing of the parent
  directory. The root has no parent: the operation fails there with the error
  given.
\<close>

definition entry_op ::
  "error \<Rightarrow> path \<Rightarrow> (string \<Rightarrow> (string \<times> node) list \<Rightarrow> error + (string \<times> node) list) \<Rightarrow>
   node \<Rightarrow> error + node"
where
  "entry_op at_root p f r =
     (if p = [] then Inl at_root else update_dir (butlast p) (f (last p)) r)"

definition mkdir_in :: "string \<Rightarrow> (string \<times> node) list \<Rightarrow> error + (string \<times> node) list" where
  "mkdir_in name es =
     (case map_of es name of
        Some n \<Rightarrow> Inl FileExistsError
      | None \<Rightarrow> Inr (AList.update name (Dir []) es))"

definition rmtree_in :: "string \<Rightarrow> (string \<times> node) list \<Rightarrow> error + (string \<times> node) list" where
  "rmtree_in name es =
     (case map_of es name of
        None \<Rightarrow> Inl FileNotFoundError
      | Some (File c) \<Rightarrow> Inl NotADirectoryError
      | Some (Dir sub) \<Rightarrow> Inr (AList.delete name es))"

definition remove_in :: "string \<Rightarrow> (string \<times> node) list \<Rightarrow> error + (string \<times> node) list" where
  "remove_in name es =
     (case map_of es name of
        None \<Rightarrow> Inl FileNotFoundError
      | Some (Dir sub) \<Rightarrow> Inl IsADirectoryError
      | Some (File c) \<Rightarrow> Inr (AList.delete name es))"

definition rmdir_in :: "string \<Rightarrow> (string \<times> node) list \<Rightarrow> error + (string \<times> node) list" where
  "rmdir_in name es =
     (case map_of es name of
        None \<Rightarrow> Inl FileNotFoundError
      | Some (File c) \<Rightarrow> Inl NotADirectoryError
      | Some (Dir sub) \<Rightarrow> (if sub = [] then Inr (AList.delete name es) else Inl OSError_ENOTEMPTY))"

definition write_in ::
  "content \<Rightarrow> string \<Rightarrow> (string \<times> node) list \<Rightarrow> error + (string \<times> node) list"
where
  "write_in c name es =
     (case map_of es name of
        Some (Dir sub) \<Rightarrow> Inl IsADirectoryError
      | _ \<Rightarrow> Inr (AList.update name (File c) es))"

subsection \<open>Statements, exceptions and the process state\<close>

record state =
  root :: node
  cwd :: path

datatype outcome = Done | Raised error

definition fs_op :: "(node \<Rightarrow> error + node) \<Rightarrow> state \<Rightarrow> outcome \<times> state" where
  "fs_op f s = (case f (root s) of Inl e \<Rightarrow> (Raised e, s) | Inr r \<Rightarrow> (Done, s\<lparr>root := r\<rparr>))"

definition and_then ::
  "outcome \<times> state \<Rightarrow> (state \<Rightarrow> outcome \<times> state) \<Rightarrow> outcome \<times> state"
where
  "and_then r k = (case r of (Done, s) \<Rightarrow> k s | (Raised e, s) \<Rightarrow> (Raised e, s))"

primrec for_each ::
  "'a list \<Rightarrow> ('a \<Rightarrow> state \<Rightarrow> outcome \<times> state) \<Rightarrow> state \<Rightarrow> outcome \<times> state"
where
  "for_each [] body s = (Done, s)"
| "for_each (x # xs) body s = and_then (body x s) (for_each xs body)"

subsection \<open>The calls into \<open>os\<close>, \<open>shutil\<close> and \<open>subprocess\<close>\<close>

definition os_path_exists :: "path \<Rightarrow> state \<Rightarrow> bool" where
  "os_path_exists p s = (lookup (root s) p \<noteq> None)"

definition os_mkdir :: "path \<Rightarrow> state \<Rightarrow> outcome \<times> state" where
  "os_mkdir p = fs_op (entry_op FileExistsError p mkdir_in)"

definition os_rmdir :: "path \<Rightarrow> state \<Rightarrow> outcome \<times> state" where
  "os_rmdir p = fs_op (entry_op OSError_EBUSY p rmdir_in)"

definition os_remove :: "path \<Rightarrow> state \<Rightarrow> outcome \<times> state" where
  "os_remove p = fs_op (entry_op IsADirectoryError p remove_in)"

definition shutil_rmtree :: "path \<Rightarrow> state \<Rightarrow> outcome \<times> state" where
  "shutil_rmtree p = fs_op (entry_op OSError_EBUSY p rmtree_in)"

text \<open>\<open>with open(p, 'w') as file: file.write(...)\<close>: create or truncate, then write.\<close>

definition open_write :: "path \<Rightarrow> content \<Rightarrow> state \<Rightarrow> outcome \<times> state" where
  "open_write p c = fs_op (entry_op IsADirectoryError p (write_in c))"

definition os_chdir :: "path \<Rightarrow> state \<Rightarrow> outcome \<times> state" where
  "os_chdir p s =
     (case lookup (root s) p of
        None \<Rightarrow> (Raised FileNotFoundError, s)
      | Some (File c) \<Rightarrow> (Raised NotADirectoryError, s)
      | Some (Dir es) \<Rightarrow> (Done, s\<lparr>cwd := p\<rparr>))"

datatype os_name = Nt | Posix | Other_os

datatype command = Argv "string list" | Shell string

text \<open>
  The host. \<open>resolve wd p\<close> gives the path that \<open>os.path.abspath\<close> of the path
  string \<open>p\<close> denotes in a process whose working directory is \<open>wd\<close>, and
  \<open>path_str\<close> the string \<open>os.path.abspath\<close> returns for it.
  \<open>spawn c d r\<close> is what the external program started by command \<open>c\<close> in
  working directory \<open>d\<close> makes of the file system \<open>r\<close>, or the error of a
  program that could not be started. \<open>subprocess.run\<close> is called without
  \<open>check\<close>: the exit status of a program that ran is dropped.
\<close>

record env =
  os_name :: os_name
  sys_executable :: string
  resolve :: "path \<Rightarrow> string \<Rightarrow> path"
  path_str :: "path \<Rightarrow> string"
  spawn :: "command \<Rightarrow> path \<Rightarrow> node \<Rightarrow> error + node"

definition subprocess_run :: "env \<Rightarrow> command \<Rightarrow> state \<Rightarrow> outcome \<times> state" where
  "subprocess_run env c s = fs_op (spawn env c (cwd s)) s"

text \<open>
  \<open>os.path.join a b\<close>. On POSIX this is \<open>posixpath.join\<close>. On Windows the
  separator is the backslash and the slash counts as one too; drive letters
  are not modelled (the program joins the literals \<open>.venv\<close>, \<open>Scripts\<close> and
  \<open>activate\<close> to an absolute path, and the user's folder name to the base
  directory).
\<close>

definition path_sep :: "os_name \<Rightarrow> char" where
  "path_sep os = (case os of Nt \<Rightarrow> CHR 0x5C | _ \<Rightarrow> CHR ''/'')"

definition path_seps :: "os_name \<Rightarrow> char list" where
  "path_seps os = (case os of Nt \<Rightarrow> [CHR 0x5C, CHR ''/''] | _ \<Rightarrow> [CHR ''/''])"

definition os_path_join :: "os_name \<Rightarrow> string \<Rightarrow> string \<Rightarrow> string" where
  "os_path_join os a b =
     (if b \<noteq> [] \<and> hd b \<in> set (path_seps os) then b
      else if a = [] \<or> last a \<in> set (path_seps os) then a @ b
      else a @ [path_sep os] @ b)"

subsection \<open>The argument checkers\<close>

text \<open>
  \<open>verify_directory\<close> takes the path that its argument denotes. In \<open>main\<close> the
  argument is a result of \<open>os.path.abspath\<close>; on the command line it is the raw
  option string, and the empty string, which \<open>os.path.exists\<close> finds nowhere,
  is handled there.
\<close>

definition verify_directory :: "path \<Rightarrow> state \<Rightarrow> error + path" where
  "verify_directory file_path s =
     (if os_path_exists file_path s then Inr file_path
      else Inl (ArgumentTypeError ''Invalid file path supplied.''))"

definition bad_syntax :: "char list" where
  "bad_syntax = [CHR '','', CHR ''.'', CHR ''/'', CHR 0x5C, CHR 0x0A, CHR 0x09, CHR ''?'']"

text \<open>
  The result of \<open>validate_name\<close> is \<open>Inl e\<close> when the call raises \<open>e\<close> and
  \<open>Inr v\<close> when it returns: \<open>v = None\<close> for Python's \<open>None\<close> and \<open>v = Some e\<close>
  for an exception object handed back as an ordinary value. The source's
  failure branch is \<open>return argparse.ArgumentTypeError(...)\<close>.
\<close>

definition validate_name :: "string \<Rightarrow> error + error option" where
  "validate_name fname =
     (let res = (\<exists>letter \<in> set fname. letter \<in> set bad_syntax) in
      if res then Inr (Some (ArgumentTypeError ''Invalid folder name supplied.''))
      else Inr None)"

subsection \<open>Teardown\<close>

definition folders_to_remove :: "string list" where
  "folders_to_remove = [''.venv'', ''data'', ''.git'']"

definition files_to_remove :: "string list" where
  "files_to_remove =
     [''solution.py'', ''solution.ipynb'', ''requirements.txt'', ''.gitignore'', ''.DS_Store'']"

definition remove_folder :: "path \<Rightarrow> string \<Rightarrow> state \<Rightarrow> outcome \<times> state" where
  "remove_folder file_path folder s =
     (if os_path_exists (file_path @ [folder]) s
      then shutil_rmtree (file_path @ [folder]) s
      else (Done, s))"

definition remove_file :: "path \<Rightarrow> string \<Rightarrow> state \<Rightarrow> outcome \<times> state" where
  "remove_file file_path file s =
     (if os_path_exists (file_path @ [file]) s
      then os_remove (file_path @ [file]) s
      else (Done, s))"

definition safe_delete :: "path \<Rightarrow> state \<Rightarrow> outcome \<times> state" where
  "safe_delete file_path s =
     and_then (for_each folders_to_remove (remove_folder file_path) s) (\<lambda>s.
     and_then (for_each files_to_remove (remove_file file_path) s) (\<lambda>s.
     os_rmdir file_path s))"

subsection \<open>The orchestrator\<close>

text \<open>The shell command of the install step, by operating-system family.\<close>

definition install_command :: "os_name \<Rightarrow> string \<Rightarrow> string option" where
  "install_command os venv_path =
     (case os of
        Nt \<Rightarrow>
          (let activate_script = os_path_join os (os_path_join os venv_path ''Scripts'') ''activate''
           in Some (activate_script @ '' && pip install  '' @ str_join '' '' PACKAGES))
      | Posix \<Rightarrow>
          (let activate_script = os_path_join os (os_path_join os venv_path ''bin'') ''activate''
           in Some (''source '' @ [CHR 0x27] @ activate_script @ [CHR 0x27] @ '' && '' @
                    replicate 23 CHR '' '' @ ''python -m pip install --upgrade pip && '' @
                    replicate 23 CHR '' '' @ ''pip install '' @ str_join '' '' PACKAGES))
      | Other_os \<Rightarrow> None)"

definition environment_setup :: "env \<Rightarrow> path \<Rightarrow> state \<Rightarrow> outcome \<times> state" where
  "environment_setup env full_fpath s =
     and_then
       (if os_path_exists full_fpath s
        then subprocess_run env (Argv [sys_executable env, ''-m'', ''venv'', ''.venv'']) s
        else (Done, s)) (\<lambda>s.
     (let venv_path = os_path_join (os_name env) (path_str env full_fpath) ''.venv'' in
      case install_command (os_name env) venv_path of
        Some c \<Rightarrow> subprocess_run env (Shell c) s
      | None \<Rightarrow> (Done, s)))"

definition solution_notebook :: notebook where
  "solution_notebook =
     (let nb = new_notebook;
          new_cells = [new_markdown_cell ''# Solution Notebook'',
                       new_code_cell ''import numpy as np\<newline>import pandas as pd'']
      in nb\<lparr>cells := cells nb @ new_cells\<rparr>)"

definition file_creations :: "string option \<Rightarrow> state \<Rightarrow> outcome \<times> state" where
  "file_creations project_type s =
     and_then
       (if \<not> os_path_exists (cwd s @ [''data'']) s then os_mkdir (cwd s @ [''data'']) s
        else (Done, s)) (\<lambda>s.
     and_then
       (let requirements_text = str_join ''\<newline>'' PACKAGES
        in open_write (cwd s @ [''requirements.txt'']) (Text requirements_text) s) (\<lambda>s.
     and_then
       (open_write (cwd s @ [''.gitignore'']) (Text (str_join ''\<newline>'' ignore_file_types)) s) (\<lambda>s.
     if project_type = Some ''jupyter-notebook''
     then open_write (cwd s @ [''solution.ipynb'']) (Notebook solution_notebook) s
     else if project_type = Some ''python''
     then open_write (cwd s @ [''solution.py''])
            (Text ''import pandas as pd\<newline>import numpy as np'') s
     else (Done, s))))"

text \<open>
  \<open>main\<close>. The arguments \<open>git\<close> and \<open>cleanup\<close> are used for their truth value
  only and are booleans here; \<open>project_type\<close> is \<open>None\<close> when the option is
  not given. The relative paths of the source (\<open>./data\<close>, \<open>requirements.txt\<close>,
  ...) are entries of the working directory.
\<close>

definition main ::
  "env \<Rightarrow> string \<Rightarrow> string \<Rightarrow> string option \<Rightarrow> bool \<Rightarrow> bool \<Rightarrow> bool \<Rightarrow> state \<Rightarrow> outcome \<times> state"
where
  "main env file_path folder_name project_type git cleanup verbose s =
     (let full_fpath = resolve env (cwd s) (os_path_join (os_name env) file_path folder_name) in
      if cleanup then
        (case verify_directory full_fpath s of
           Inl e \<Rightarrow> (Raised e, s)
         | Inr p \<Rightarrow> safe_delete full_fpath s)
      else
        and_then
          (if \<not> os_path_exists full_fpath s then os_mkdir full_fpath s else (Done, s)) (\<lambda>s.
        and_then (os_chdir full_fpath s) (\<lambda>s.
        and_then (environment_setup env full_fpath s) (\<lambda>s.
        and_then
          (if git then subprocess_run env (Argv [''git'', ''init'']) s else (Done, s))
          (file_creations project_type)))))"

subsection \<open>The command line\<close>

text \<open>
  The options as \<open>argparse\<close> receives them: the two required ones as strings,
  the others \<open>None\<close> when absent. \<open>--file_path\<close> is converted by
  \<open>verify_directory\<close>; \<open>--name\<close> has no converter; \<open>--project_type\<close> is checked
  against its two choices; \<open>--git\<close> is converted by \<open>bool\<close>, which is true of
  every non-empty string; \<open>--cleanup\<close> and \<open>--verbose\<close> are stored as given,
  with defaults \<open>False\<close> and \<open>True\<close>. \<open>os.path.exists('')\<close> is false, so an
  empty \<open>--file_path\<close> is refused.
\<close>

record args =
  arg_file_path :: string
  arg_name :: string
  arg_project_type :: "string option"
  arg_verbose :: "string option"
  arg_cleanup :: "string option"
  arg_git :: "string option"

definition truthy :: "bool \<Rightarrow> string option \<Rightarrow> bool" where
  "truthy dflt v = (case v of None \<Rightarrow> dflt | Some x \<Rightarrow> x \<noteq> [])"

definition run_cli :: "env \<Rightarrow> args \<Rightarrow> state \<Rightarrow> outcome \<times> state" where
  "run_cli env a s =
     (case (if arg_file_path a = [] then Inl (ArgumentTypeError ''Invalid file path supplied.'')
            else verify_directory (resolve env (cwd s) (arg_file_path a)) s) of
        Inl e \<Rightarrow> (Raised e, s)
      | Inr p \<Rightarrow>
          if arg_project_type a \<notin> {None, Some ''jupyter-notebook'', Some ''python''}
          then (Raised (ArgumentError ''invalid choice''), s)
          else main env (arg_file_path a) (arg_name a) (arg_project_type a)
                 (truthy False (arg_git a)) (truthy False (arg_cleanup a))
                 (truthy True (arg_verbose a)) s)"

subsection \<open>Notions used in the statements\<close>

text \<open>
  The project directory of a run started in working directory \<open>wd\<close>:
  \<open>full_fpath\<close> in \<open>main\<close>.
\<close>

definition project_dir :: "env \<Rightarrow> path \<Rightarrow> string \<Rightarrow> string \<Rightarrow> path" where
  "project_dir env wd file_path folder_name =
     resolve env wd (os_path_join (os_name env) file_path folder_name)"

text \<open>
  The listing of the working directory that the file-creation block of \<open>main\<close>
  leaves, as a function of the listing it found.
\<close>

definition with_data :: "(string \<rightharpoonup> node) \<Rightarrow> (string \<rightharpoonup> node)" where
  "with_data m = (if m ''data'' = None then m(''data'' \<mapsto> Dir []) else m)"

definition with_stub :: "string option \<Rightarrow> (string \<rightharpoonup> node) \<Rightarrow> (string \<rightharpoonup> node)" where
  "with_stub project_type m =
     (if project_type = Some ''jupyter-notebook''
      then m(''solution.ipynb'' \<mapsto> File (Notebook solution_notebook))
      else if project_type = Some ''python''
      then m(''solution.py'' \<mapsto> File (Text ''import pandas as pd\<newline>import numpy as np''))
      else m)"

definition written :: "string option \<Rightarrow> (string \<rightharpoonup> node) \<Rightarrow> (string \<rightharpoonup> node)" where
  "written project_type m =
     with_stub project_type
       ((with_data m)(''requirements.txt'' \<mapsto> File (Text (str_join ''\<newline>'' PACKAGES)),
                      ''.gitignore'' \<mapsto> File (Text (str_join ''\<newline>'' ignore_file_types))))"

text \<open>
  What is assumed of the external programs where a statement depends on them:
  started in directory \<open>d\<close>, a program keeps \<open>d\<close> a directory, changes no
  entry of it other than \<open>.venv\<close> and \<open>.git\<close>, and puts no regular file
  directly into it.
\<close>

definition tools_effect :: "(string \<times> node) list \<Rightarrow> (string \<times> node) list \<Rightarrow> bool" where
  "tools_effect es es' \<longleftrightarrow>
     (\<forall>n. n \<notin> {''.venv'', ''.git''} \<longrightarrow> map_of es' n = map_of es n) \<and>
     (\<forall>n c. map_of es' n = Some (File c) \<longrightarrow> map_of es n = Some (File c))"

definition tools_confined :: "env \<Rightarrow> path \<Rightarrow> bool" where
  "tools_confined env d \<longleftrightarrow>
     (\<forall>c r r' es. spawn env c d r = Inr r' \<longrightarrow> lookup r d = Some (Dir es) \<longrightarrow>
        (\<exists>es'. lookup r' d = Some (Dir es') \<and> tools_effect es es'))"


text \<open>
  A listing that holds nothing but the scaffold: every directory in it has one
  of the names \<open>safe_delete\<close> removes as a folder, every file one of the names
  it removes as a file.
\<close>

definition scaffold_entry :: "string \<Rightarrow> node \<Rightarrow> bool" where
  "scaffold_entry n v =
     (case v of Dir sub \<Rightarrow> n \<in> set folders_to_remove | File c \<Rightarrow> n \<in> set files_to_remove)"

definition scaffold_only :: "(string \<times> node) list \<Rightarrow> bool" where
  "scaffold_only es =
     (\<forall>n \<in> set (map fst es). case map_of es n of None \<Rightarrow> True | Some v \<Rightarrow> scaffold_entry n v)"

text \<open>\<open>s.split(sep)\<close> of Python for a one-character separator.\<close>

fun str_split :: "char \<Rightarrow> string \<Rightarrow> string list" where
  "str_split sep [] = [[]]"
| "str_split sep (x # xs) =
     (if x = sep then [] # str_split sep xs
      else (case str_split sep xs of [] \<Rightarrow> [[x]] | y # ys \<Rightarrow> (x # y) # ys))"

subsection \<open>A concrete host and concrete disks\<close>

text \<open>
  A POSIX host whose tools work: the \<open>venv\<close> module creates \<open>.venv\<close>,
  \<open>git init\<close> creates \<open>.git\<close>, the install command changes nothing outside
  \<open>.venv\<close>. A tool that cannot work in its directory exits with an error
  status, which \<open>subprocess.run\<close> drops.
\<close>

definition demo_tool :: "string \<Rightarrow> node \<Rightarrow> path \<Rightarrow> node \<Rightarrow> error + node" where
  "demo_tool name made d r =
     (case update_dir d (\<lambda>es. Inr (AList.update name made es)) r of
        Inl e \<Rightarrow> Inr r
      | Inr r' \<Rightarrow> Inr r')"

definition demo_spawn :: "string \<Rightarrow> command \<Rightarrow> path \<Rightarrow> node \<Rightarrow> error + node" where
  "demo_spawn py c d r =
     (if c = Argv [py, ''-m'', ''venv'', ''.venv'']
      then demo_tool ''.venv'' (Dir [(''pyvenv.cfg'', File (Text ''home = /usr/bin''))]) d r
      else if c = Argv [''git'', ''init'']
      then demo_tool ''.git'' (Dir [(''HEAD'', File (Text ''ref: refs/heads/main''))]) d r
      else Inr r)"

definition demo_env :: env where
  "demo_env =
     \<lparr>os_name = Posix,
      sys_executable = ''/usr/bin/python3'',
      resolve = (\<lambda>wd p. (if p \<noteq> [] \<and> hd p = CHR ''/'' then [] else wd) @
                         filter (\<lambda>c. c \<noteq> []) (str_split CHR ''/'' p)),
      path_str = (\<lambda>p. concat (map (\<lambda>c. CHR ''/'' # c) p)),
      spawn = demo_spawn ''/usr/bin/python3''\<rparr>"

text \<open>
  Disks: one with an empty \<open>/tmp\<close>, one with a project directory that also
  holds a file \<open>notes.md\<close>, one with a project directory holding scaffold
  entries only. \<open>demo_args\<close> is a command line with a disallowed character
  in the name.
\<close>

definition demo_state :: state where
  "demo_state = \<lparr>root = Dir [(''tmp'', Dir [])], cwd = []\<rparr>"

definition demo_notes :: state where
  "demo_notes =
     \<lparr>root = Dir [(''tmp'', Dir [(''demo1'',
         Dir [(''.venv'', Dir [(''pyvenv.cfg'', File (Text ''home = /usr/bin''))]),
              (''data'', Dir []),
              (''requirements.txt'', File (Text ''numpy'')),
              (''notes.md'', File (Text ''to do''))])])],
      cwd = []\<rparr>"

definition demo_clean :: state where
  "demo_clean =
     \<lparr>root = Dir [(''tmp'', Dir [(''demo1'',
         Dir [(''.venv'', Dir [(''pyvenv.cfg'', File (Text ''home = /usr/bin''))]),
              (''data'', Dir []),
              (''requirements.txt'', File (Text ''numpy''))])])],
      cwd = []\<rparr>"

definition demo_args :: args where
  "demo_args =
     \<lparr>arg_file_path = ''/tmp'', arg_name = ''a?b'', arg_project_type = Some ''python'',
      arg_verbose = None, arg_cleanup = None, arg_git = None\<rparr>"

text \<open>
  The disks that create runs on \<open>demo_state\<close> leave: for a script with
  \<open>git\<close>, for a notebook, and with no \<open>project_type\<close>.
\<close>

definition demo_python_project :: state where
  "demo_python_project =
     \<lparr>root = Dir [(''tmp'', Dir [(''demo1'',
         Dir [(''.venv'', Dir [(''pyvenv.cfg'', File (Text ''home = /usr/bin''))]),
              (''.git'', Dir [(''HEAD'', File (Text ''ref: refs/heads/main''))]),
              (''data'', Dir []),
              (''requirements.txt'', File (Text
                 ''numpy\<newline>pandas\<newline>openpyxl\<newline>scikit-learn\<newline>matplotlib\<newline>seaborn\<newline>notebook'')),
              (''.gitignore'', File (Text
                 ''*.txt\<newline>*.csv\<newline>*.xlsx\<newline>*.xls\<newline>*.ipynb_checkpoints\<newline>*.vscode\<newline>.git'')),
              (''solution.py'', File (Text ''import pandas as pd\<newline>import numpy as np''))])])],
      cwd = [''tmp'', ''demo1'']\<rparr>"

definition demo_notebook_project :: state where
  "demo_notebook_project =
     \<lparr>root = Dir [(''tmp'', Dir [(''demo1'',
         Dir [(''.venv'', Dir [(''pyvenv.cfg'', File (Text ''home = /usr/bin''))]),
              (''data'', Dir []),
              (''requirements.txt'', File (Text
                 ''numpy\<newline>pandas\<newline>openpyxl\<newline>scikit-learn\<newline>matplotlib\<newline>seaborn\<newline>notebook'')),
              (''.gitignore'', File (Text
                 ''*.txt\<newline>*.csv\<newline>*.xlsx\<newline>*.xls\<newline>*.ipynb_checkpoints\<newline>*.vscode\<newline>.git'')),
              (''solution.ipynb'', File (Notebook
                 \<lparr>nbformat = 4,
                  cells = [Markdown_cell ''# Solution Notebook'',
                           Code_cell ''import numpy as np\<newline>import pandas as pd'']\<rparr>))])])],
      cwd = [''tmp'', ''demo1'']\<rparr>"


text \<open>
  A disk whose project directory exists before the create run and holds a file
  \<open>notes.md\<close>, and the disk a create run for a script leaves from it.
\<close>

definition demo_with_notes :: state where
  "demo_with_notes =
     \<lparr>root = Dir [(''tmp'', Dir [(''demo1'', Dir [(''notes.md'', File (Text ''to do''))])])],
      cwd = []\<rparr>"

definition demo_notes_project :: state where
  "demo_notes_project =
     \<lparr>root = Dir [(''tmp'', Dir [(''demo1'',
         Dir [(''notes.md'', File (Text ''to do'')),
              (''.venv'', Dir [(''pyvenv.cfg'', File (Text ''home = /usr/bin''))]),
              (''data'', Dir []),
              (''requirements.txt'', File (Text
                 ''numpy\<newline>pandas\<newline>openpyxl\<newline>scikit-learn\<newline>matplotlib\<newline>seaborn\<newline>notebook'')),
              (''.gitignore'', File (Text
                 ''*.txt\<newline>*.csv\<newline>*.xlsx\<newline>*.xls\<newline>*.ipynb_checkpoints\<newline>*.vscode\<newline>.git'')),
              (''solution.py'', File (Text ''import pandas as pd\<newline>import numpy as np''))])])],
      cwd = [''tmp'', ''demo1'']\<rparr>"

section \<open>Properties\<close>

subsection \<open>Paths and directory updates\<close>

lemma lookup_append:
  "lookup r (p @ q) = (case lookup r p of None \<Rightarrow> None | Some n \<Rightarrow> lookup n q)"
proof (induction r p rule: lookup.induct)
  case (1 n)
  show ?case by simp
next
  case (2 c x xs)
  show ?case by simp
next
  case (3 es x xs)
  then show ?case by (cases "map_of es x") simp_all
qed

lemma lookup_child:
  "lookup r d = Some (Dir es) \<Longrightarrow> lookup r (d @ n # q) = (case map_of es n of None \<Rightarrow> None | Some v \<Rightarrow> lookup v q)"
  by (simp add: lookup_append)

lemma lookup_child_Some:
  assumes "lookup r (d @ [n]) = Some v"
  shows "\<exists>es. lookup r d = Some (Dir es) \<and> map_of es n = Some v"
proof (cases "lookup r d")
  case None
  with assms show ?thesis by (simp add: lookup_append)
next
  case (Some m)
  with assms show ?thesis
    by (cases m) (auto simp: lookup_append split: option.splits)
qed

lemma update_dir_Inr:
  "update_dir d f r = Inr r' \<Longrightarrow>
     \<exists>es es'. lookup r d = Some (Dir es) \<and> f es = Inr es' \<and> lookup r' d = Some (Dir es')"
proof (induction d f r arbitrary: r' rule: update_dir.induct)
  case (1 f es)
  then show ?case by (auto split: sum.splits)
next
  case (2 f c)
  then show ?case by simp
next
  case (3 x xs f c)
  then show ?case by simp
next
  case (4 x xs f es)
  then show ?case
    by (auto split: option.splits sum.splits simp: update_conv')
qed

lemma update_dir_succeeds:
  "lookup r d = Some (Dir es) \<Longrightarrow> f es = Inr es' \<Longrightarrow> \<exists>r'. update_dir d f r = Inr r'"
proof (induction d f r rule: update_dir.induct)
  case (1 f es0)
  then show ?case by simp
next
  case (2 f c)
  then show ?case by simp
next
  case (3 x xs f c)
  then show ?case by simp
next
  case (4 x xs f es0)
  then show ?case
    by (auto split: option.splits sum.splits)
qed

subsection \<open>Statements\<close>

lemma and_then_Done:
  "and_then r k = (Done, s') \<longleftrightarrow> (\<exists>s1. r = (Done, s1) \<and> k s1 = (Done, s'))"
  by (cases r; cases "fst r") (auto simp: and_then_def)

lemma and_then_Raised:
  "and_then r k = (Raised e, s') \<longleftrightarrow>
     r = (Raised e, s') \<or> (\<exists>s1. r = (Done, s1) \<and> k s1 = (Raised e, s'))"
  by (cases r; cases "fst r") (auto simp: and_then_def)

lemma fs_op_Raised: "fs_op g s = (Raised e, s') \<Longrightarrow> s' = s"
  by (auto simp: fs_op_def split: sum.splits)

lemma fs_op_cwd: "fs_op g s = (out, s') \<Longrightarrow> cwd s' = cwd s"
  by (auto simp: fs_op_def split: sum.splits)

lemma entry_op_Done:
  assumes "fs_op (entry_op err (d @ [n]) f) s = (Done, s')"
  shows "\<exists>es es'. lookup (root s) d = Some (Dir es) \<and> f n es = Inr es' \<and>
           lookup (root s') d = Some (Dir es')"
proof -
  from assms obtain r' where "update_dir d (f n) (root s) = Inr r'" and "root s' = r'"
    by (auto simp: fs_op_def entry_op_def split: sum.splits)
  then show ?thesis using update_dir_Inr [of d "f n" "root s" r'] by simp
qed

lemma entry_op_succeeds:
  assumes "lookup (root s) d = Some (Dir es)" and "f n es = Inr es'"
  shows "\<exists>s'. fs_op (entry_op err (d @ [n]) f) s = (Done, s')"
proof -
  from update_dir_succeeds [OF assms(1), of "f n" es'] assms(2)
  obtain r' where "update_dir d (f n) (root s) = Inr r'" by blast
  then show ?thesis by (simp add: fs_op_def entry_op_def)
qed

lemma exists_child:
  "lookup (root s) d = Some (Dir es) \<Longrightarrow> os_path_exists (d @ [n]) s \<longleftrightarrow> map_of es n \<noteq> None"
  by (simp add: os_path_exists_def lookup_append split: option.splits)

lemma exists_child_no_dir:
  "(\<And>es. lookup (root s) d \<noteq> Some (Dir es)) \<Longrightarrow> \<not> os_path_exists (d @ [n]) s"
  by (cases "lookup (root s) (d @ [n])") (auto simp: os_path_exists_def dest: lookup_child_Some)

lemma rmtree_in_Inr:
  "rmtree_in n es = Inr es' \<longleftrightarrow> (\<exists>sub. map_of es n = Some (Dir sub)) \<and> es' = AList.delete n es"
  by (auto simp: rmtree_in_def split: option.splits node.splits)

lemma remove_in_Inr:
  "remove_in n es = Inr es' \<longleftrightarrow> (\<exists>c. map_of es n = Some (File c)) \<and> es' = AList.delete n es"
  by (auto simp: remove_in_def split: option.splits node.splits)

lemma rmdir_in_Inr:
  "rmdir_in n es = Inr es' \<longleftrightarrow> map_of es n = Some (Dir []) \<and> es' = AList.delete n es"
  by (auto simp: rmdir_in_def split: option.splits node.splits)

lemma mkdir_in_Inr:
  "mkdir_in n es = Inr es' \<longleftrightarrow> map_of es n = None \<and> es' = AList.update n (Dir []) es"
  by (auto simp: mkdir_in_def split: option.splits)

lemma write_in_Inr:
  "write_in c n es = Inr es' \<longleftrightarrow>
     (\<forall>sub. map_of es n \<noteq> Some (Dir sub)) \<and> es' = AList.update n (File c) es"
  by (auto simp: write_in_def split: option.splits node.splits)

text \<open>One round of either loop of the teardown.\<close>

lemma remove_folder_step:
  assumes "lookup (root s) t = Some (Dir es)" and "remove_folder t m s = (out, s')"
  shows "\<exists>es'. lookup (root s') t = Some (Dir es') \<and>
           (\<forall>x. x \<noteq> m \<longrightarrow> map_of es' x = map_of es x) \<and>
           (out = Done \<longrightarrow> map_of es' m = None)"
proof (cases "os_path_exists (t @ [m]) s")
  case False
  with assms show ?thesis by (simp add: remove_folder_def exists_child)
next
  case True
  with assms(2) have run: "fs_op (entry_op OSError_EBUSY (t @ [m]) rmtree_in) s = (out, s')"
    by (simp add: remove_folder_def shutil_rmtree_def)
  show ?thesis
  proof (cases out)
    case Done
    with run entry_op_Done [of OSError_EBUSY t m rmtree_in s s'] assms(1)
    show ?thesis by (auto simp: rmtree_in_Inr delete_conv')
  next
    case (Raised e)
    with run have "s' = s" by (auto dest: fs_op_Raised)
    with assms(1) Raised show ?thesis by simp
  qed
qed

lemma remove_file_step:
  assumes "lookup (root s) t = Some (Dir es)" and "remove_file t m s = (out, s')"
  shows "\<exists>es'. lookup (root s') t = Some (Dir es') \<and>
           (\<forall>x. x \<noteq> m \<longrightarrow> map_of es' x = map_of es x) \<and>
           (out = Done \<longrightarrow> map_of es' m = None)"
proof (cases "os_path_exists (t @ [m]) s")
  case False
  with assms show ?thesis by (simp add: remove_file_def exists_child)
next
  case True
  with assms(2) have run: "fs_op (entry_op IsADirectoryError (t @ [m]) remove_in) s = (out, s')"
    by (simp add: remove_file_def os_remove_def)
  show ?thesis
  proof (cases out)
    case Done
    with run entry_op_Done [of IsADirectoryError t m remove_in s s'] assms(1)
    show ?thesis by (auto simp: remove_in_Inr delete_conv')
  next
    case (Raised e)
    with run have "s' = s" by (auto dest: fs_op_Raised)
    with assms(1) Raised show ?thesis by simp
  qed
qed

lemma remove_folder_succeeds:
  assumes "lookup (root s) t = Some (Dir es)" and "\<And>c. map_of es m \<noteq> Some (File c)"
  shows "fst (remove_folder t m s) = Done"
proof (cases "map_of es m")
  case None
  with assms(1) show ?thesis by (simp add: remove_folder_def exists_child)
next
  case (Some v)
  with assms(2) obtain sub where "map_of es m = Some (Dir sub)" by (cases v) auto
  then have "rmtree_in m es = Inr (AList.delete m es)" by (simp add: rmtree_in_Inr)
  from entry_op_succeeds [where f = rmtree_in and n = m and err = OSError_EBUSY, OF assms(1) this]
  show ?thesis by (auto simp: remove_folder_def shutil_rmtree_def)
qed

lemma remove_file_succeeds:
  assumes "lookup (root s) t = Some (Dir es)" and "\<And>sub. map_of es m \<noteq> Some (Dir sub)"
  shows "fst (remove_file t m s) = Done"
proof (cases "map_of es m")
  case None
  with assms(1) show ?thesis by (simp add: remove_file_def exists_child)
next
  case (Some v)
  with assms(2) obtain c where "map_of es m = Some (File c)" by (cases v) auto
  then have "remove_in m es = Inr (AList.delete m es)" by (simp add: remove_in_Inr)
  from entry_op_succeeds [where f = remove_in and n = m and err = IsADirectoryError, OF assms(1) this]
  show ?thesis by (auto simp: remove_file_def os_remove_def)
qed

lemma remove_folder_no_dir:
  "(\<And>es. lookup (root s) t \<noteq> Some (Dir es)) \<Longrightarrow> remove_folder t m s = (Done, s)"
  by (simp add: remove_folder_def exists_child_no_dir)

lemma remove_file_no_dir:
  "(\<And>es. lookup (root s) t \<noteq> Some (Dir es)) \<Longrightarrow> remove_file t m s = (Done, s)"
  by (simp add: remove_file_def exists_child_no_dir)

lemma for_each_listing:
  assumes step: "\<And>m s es out s'. lookup (root s) t = Some (Dir es) \<Longrightarrow> body m s = (out, s') \<Longrightarrow>
      \<exists>es'. lookup (root s') t = Some (Dir es') \<and>
        (\<forall>x. x \<noteq> m \<longrightarrow> map_of es' x = map_of es x) \<and> (out = Done \<longrightarrow> map_of es' m = None)"
    and "lookup (root s) t = Some (Dir es)"
    and "for_each ms body s = (out, s')"
  shows "\<exists>es'. lookup (root s') t = Some (Dir es') \<and>
           (\<forall>x. x \<notin> set ms \<longrightarrow> map_of es' x = map_of es x) \<and>
           (out = Done \<longrightarrow> (\<forall>x. map_of es' x = (if x \<in> set ms then None else map_of es x)))"
  using assms(2,3)
proof (induction ms arbitrary: s es)
  case Nil
  then show ?case by auto
next
  case (Cons m ms)
  obtain o1 s1 where b: "body m s = (o1, s1)" by (cases "body m s")
  from step [OF Cons.prems(1) b] obtain es1 where
    es1: "lookup (root s1) t = Some (Dir es1)"
      "\<forall>x. x \<noteq> m \<longrightarrow> map_of es1 x = map_of es x"
      "o1 = Done \<longrightarrow> map_of es1 m = None"
    by blast
  show ?case
  proof (cases o1)
    case Done
    with Cons.prems(2) b have rest: "for_each ms body s1 = (out, s')" by (simp add: and_then_def)
    from Cons.IH [OF es1(1) rest] obtain es' where
      es': "lookup (root s') t = Some (Dir es')"
        "\<forall>x. x \<notin> set ms \<longrightarrow> map_of es' x = map_of es1 x"
        "out = Done \<longrightarrow> (\<forall>x. map_of es' x = (if x \<in> set ms then None else map_of es1 x))"
      by blast
    have "\<forall>x. x \<notin> set (m # ms) \<longrightarrow> map_of es' x = map_of es x"
      using es'(2) es1(2) by simp
    moreover have "out = Done \<longrightarrow>
        (\<forall>x. map_of es' x = (if x \<in> set (m # ms) then None else map_of es x))"
      using es'(3) es1(2,3) Done by auto
    ultimately show ?thesis using es'(1) by blast
  next
    case (Raised e)
    with Cons.prems(2) b have "out = Raised e" "s' = s1" by (simp_all add: and_then_def)
    with es1 show ?thesis by auto
  qed
qed

lemma for_each_succeeds:
  assumes step: "\<And>m s es out s'. lookup (root s) t = Some (Dir es) \<Longrightarrow> body m s = (out, s') \<Longrightarrow>
      \<exists>es'. lookup (root s') t = Some (Dir es') \<and>
        (\<forall>x. x \<noteq> m \<longrightarrow> map_of es' x = map_of es x) \<and> (out = Done \<longrightarrow> map_of es' m = None)"
    and ok: "\<And>m s es. lookup (root s) t = Some (Dir es) \<Longrightarrow> good (map_of es m) \<Longrightarrow>
      fst (body m s) = Done"
    and none: "good None"
    and "lookup (root s) t = Some (Dir es)"
    and "\<forall>m \<in> set ms. good (map_of es m)"
  shows "fst (for_each ms body s) = Done"
  using assms(4,5)
proof (induction ms arbitrary: s es)
  case Nil
  then show ?case by simp
next
  case (Cons m ms)
  obtain o1 s1 where b: "body m s = (o1, s1)" by (cases "body m s")
  from ok [OF Cons.prems(1), of m] Cons.prems(2) b have o1: "o1 = Done" by simp
  from step [OF Cons.prems(1) b] o1 obtain es1 where
    es1: "lookup (root s1) t = Some (Dir es1)"
      "\<forall>x. x \<noteq> m \<longrightarrow> map_of es1 x = map_of es x"
      "map_of es1 m = None"
    by blast
  have "\<forall>x \<in> set ms. good (map_of es1 x)"
  proof
    fix x assume "x \<in> set ms"
    with Cons.prems(2) have "good (map_of es x)" by simp
    with es1(2,3) none show "good (map_of es1 x)" by (cases "x = m") simp_all
  qed
  from Cons.IH [OF es1(1) this] b o1 show ?case by (simp add: and_then_def)
qed

lemma for_each_no_dir:
  assumes "\<And>m s. (\<And>es. lookup (root s) t \<noteq> Some (Dir es)) \<Longrightarrow> body m s = (Done, s)"
    and "\<And>es. lookup (root s) t \<noteq> Some (Dir es)"
  shows "for_each ms body s = (Done, s)"
  using assms by (induction ms) (simp_all add: and_then_def)

text \<open>The final \<open>os.rmdir\<close>.\<close>

lemma os_rmdir_Done:
  assumes "os_rmdir t s = (Done, s')"
  shows "t \<noteq> []" and "lookup (root s) t = Some (Dir [])" and "lookup (root s') (t @ q) = None"
    and "cwd s' = cwd s"
proof -
  show ne: "t \<noteq> []" using assms by (auto simp: os_rmdir_def fs_op_def entry_op_def)
  then have t: "t = butlast t @ [last t]" by simp
  from assms have "fs_op (entry_op OSError_EBUSY (butlast t @ [last t]) rmdir_in) s = (Done, s')"
    using ne by (simp add: os_rmdir_def)
  from entry_op_Done [OF this] obtain es es' where
    es: "lookup (root s) (butlast t) = Some (Dir es)" "rmdir_in (last t) es = Inr es'"
      "lookup (root s') (butlast t) = Some (Dir es')"
    by blast
  from es(2) have m: "map_of es (last t) = Some (Dir [])" "es' = AList.delete (last t) es"
    by (simp_all add: rmdir_in_Inr)
  have "lookup (root s) (butlast t @ last t # []) = Some (Dir [])"
    using es(1) m(1) by (simp add: lookup_child)
  with t show "lookup (root s) t = Some (Dir [])" by simp
  have gone: "lookup (root s') (butlast t @ last t # q) = None"
    using es(3) m(2) by (simp add: lookup_child delete_conv')
  have split: "t @ q = butlast t @ last t # q"
    using ne by (metis append_butlast_last_id append_Cons append_Nil append_assoc)
  show "lookup (root s') (t @ q) = None" by (subst split) (rule gone)
  show "cwd s' = cwd s" using assms by (auto simp: os_rmdir_def dest: fs_op_cwd)
qed

lemma os_rmdir_Raised: "os_rmdir t s = (Raised e, s') \<Longrightarrow> s' = s"
  by (auto simp: os_rmdir_def dest: fs_op_Raised)

lemma os_rmdir_succeeds:
  assumes "t \<noteq> []" and "lookup (root s) t = Some (Dir [])"
  shows "\<exists>s'. os_rmdir t s = (Done, s')"
proof -
  from assms have "lookup (root s) (butlast t @ [last t]) = Some (Dir [])" by simp
  from lookup_child_Some [OF this] obtain es where
    es: "lookup (root s) (butlast t) = Some (Dir es)" "map_of es (last t) = Some (Dir [])"
    by blast
  then have "rmdir_in (last t) es = Inr (AList.delete (last t) es)" by (simp add: rmdir_in_Inr)
  from entry_op_succeeds [where f = rmdir_in and n = "last t" and err = OSError_EBUSY, OF es(1) this]
  show ?thesis using assms(1) by (simp add: os_rmdir_def)
qed

text \<open>The teardown as a whole, on a target that is a directory.\<close>

lemma folders_loop:
  assumes "lookup (root s) t = Some (Dir es)" and "for_each ms (remove_folder t) s = (out, s')"
  shows "\<exists>es'. lookup (root s') t = Some (Dir es') \<and>
           (\<forall>x. x \<notin> set ms \<longrightarrow> map_of es' x = map_of es x) \<and>
           (out = Done \<longrightarrow> (\<forall>x. map_of es' x = (if x \<in> set ms then None else map_of es x)))"
  by (rule for_each_listing [where body = "remove_folder t", OF _ assms]) (rule remove_folder_step)

lemma files_loop:
  assumes "lookup (root s) t = Some (Dir es)" and "for_each ms (remove_file t) s = (out, s')"
  shows "\<exists>es'. lookup (root s') t = Some (Dir es') \<and>
           (\<forall>x. x \<notin> set ms \<longrightarrow> map_of es' x = map_of es x) \<and>
           (out = Done \<longrightarrow> (\<forall>x. map_of es' x = (if x \<in> set ms then None else map_of es x)))"
  by (rule for_each_listing [where body = "remove_file t", OF _ assms]) (rule remove_file_step)

lemma safe_delete_cases:
  assumes "safe_delete t s = (out, s')"
  shows "(\<exists>e. for_each folders_to_remove (remove_folder t) s = (Raised e, s') \<and> out = Raised e) \<or>
    (\<exists>s1. for_each folders_to_remove (remove_folder t) s = (Done, s1) \<and>
       ((\<exists>e. for_each files_to_remove (remove_file t) s1 = (Raised e, s') \<and> out = Raised e) \<or>
        (\<exists>s2. for_each files_to_remove (remove_file t) s1 = (Done, s2) \<and>
           os_rmdir t s2 = (out, s'))))"
  using assms by (cases out) (auto simp: safe_delete_def and_then_Done and_then_Raised)

subsection \<open>The file-creation block and the tools\<close>

lemma os_mkdir_listing:
  assumes "os_mkdir (d @ [n]) s = (Done, s')"
  shows "\<exists>es es'. lookup (root s) d = Some (Dir es) \<and> lookup (root s') d = Some (Dir es') \<and>
           map_of es n = None \<and> map_of es' = (map_of es)(n \<mapsto> Dir [])"
    and "cwd s' = cwd s"
proof -
  from assms have "fs_op (entry_op FileExistsError (d @ [n]) mkdir_in) s = (Done, s')"
    by (simp add: os_mkdir_def)
  from entry_op_Done [OF this]
  show "\<exists>es es'. lookup (root s) d = Some (Dir es) \<and> lookup (root s') d = Some (Dir es') \<and>
           map_of es n = None \<and> map_of es' = (map_of es)(n \<mapsto> Dir [])"
    by (auto simp: mkdir_in_Inr update_conv')
  show "cwd s' = cwd s" using assms by (auto simp: os_mkdir_def dest: fs_op_cwd)
qed

lemma os_mkdir_Done:
  assumes "os_mkdir p s = (Done, s')"
  shows "p \<noteq> []" and "lookup (root s') p = Some (Dir [])"
proof -
  show ne: "p \<noteq> []" using assms by (auto simp: os_mkdir_def fs_op_def entry_op_def)
  then have "os_mkdir (butlast p @ [last p]) s = (Done, s')" using assms by simp
  from os_mkdir_listing(1) [OF this] obtain es' where
    "lookup (root s') (butlast p) = Some (Dir es')" "map_of es' (last p) = Some (Dir [])"
    by auto
  then have "lookup (root s') (butlast p @ last p # []) = Some (Dir [])"
    by (simp add: lookup_child)
  with ne show "lookup (root s') p = Some (Dir [])" by simp
qed

lemma open_write_listing:
  assumes "open_write (d @ [n]) c s = (Done, s')"
  shows "\<exists>es es'. lookup (root s) d = Some (Dir es) \<and> lookup (root s') d = Some (Dir es') \<and>
           map_of es' = (map_of es)(n \<mapsto> File c)"
    and "cwd s' = cwd s"
proof -
  from assms have "fs_op (entry_op IsADirectoryError (d @ [n]) (write_in c)) s = (Done, s')"
    by (simp add: open_write_def)
  from entry_op_Done [OF this]
  show "\<exists>es es'. lookup (root s) d = Some (Dir es) \<and> lookup (root s') d = Some (Dir es') \<and>
           map_of es' = (map_of es)(n \<mapsto> File c)"
    by (auto simp: write_in_Inr update_conv')
  show "cwd s' = cwd s" using assms by (auto simp: open_write_def dest: fs_op_cwd)
qed

lemma os_chdir_Done:
  assumes "os_chdir p s = (Done, s')"
  shows "\<exists>es. lookup (root s) p = Some (Dir es)" and "root s' = root s" and "cwd s' = p"
  using assms by (auto simp: os_chdir_def split: option.splits node.splits)

lemma subprocess_run_Done:
  assumes "subprocess_run env c s = (Done, s')"
  shows "spawn env c (cwd s) (root s) = Inr (root s')" and "cwd s' = cwd s"
  using assms by (auto simp: subprocess_run_def fs_op_def split: sum.splits)

text \<open>The listing of the working directory after the file-creation block.\<close>

lemma data_step:
  assumes "(if \<not> os_path_exists (d @ [''data'']) s then os_mkdir (d @ [''data'']) s else (Done, s))
             = (Done, s')"
  shows "\<exists>es es'. lookup (root s) d = Some (Dir es) \<and> lookup (root s') d = Some (Dir es') \<and>
           map_of es' = with_data (map_of es)"
    and "cwd s' = cwd s"
proof -
  show "\<exists>es es'. lookup (root s) d = Some (Dir es) \<and> lookup (root s') d = Some (Dir es') \<and>
           map_of es' = with_data (map_of es)"
  proof (cases "os_path_exists (d @ [''data'']) s")
    case True
    then obtain v where "lookup (root s) (d @ [''data'']) = Some v"
      by (auto simp: os_path_exists_def)
    from lookup_child_Some [OF this] obtain es where
      "lookup (root s) d = Some (Dir es)" "map_of es ''data'' = Some v" by blast
    with True assms show ?thesis by (auto simp: with_data_def)
  next
    case False
    with assms have "os_mkdir (d @ [''data'']) s = (Done, s')" by simp
    from os_mkdir_listing(1) [OF this] show ?thesis by (auto simp: with_data_def)
  qed
  show "cwd s' = cwd s" using assms os_mkdir_listing(2) [of d "''data''" s s']
    by (auto split: if_splits)
qed

lemma stub_step:
  assumes "(if project_type = Some ''jupyter-notebook''
            then open_write (d @ [''solution.ipynb'']) (Notebook solution_notebook) s
            else if project_type = Some ''python''
            then open_write (d @ [''solution.py''])
                   (Text ''import pandas as pd\<newline>import numpy as np'') s
            else (Done, s)) = (Done, s')"
    and "lookup (root s) d = Some (Dir es)"
  shows "\<exists>es'. lookup (root s') d = Some (Dir es') \<and> map_of es' = with_stub project_type (map_of es)"
    and "cwd s' = cwd s"
proof -
  consider (nb) "project_type = Some ''jupyter-notebook''"
    | (py) "project_type \<noteq> Some ''jupyter-notebook''" "project_type = Some ''python''"
    | (none) "project_type \<noteq> Some ''jupyter-notebook''" "project_type \<noteq> Some ''python''"
    by blast
  then have "(\<exists>es'. lookup (root s') d = Some (Dir es') \<and>
      map_of es' = with_stub project_type (map_of es)) \<and> cwd s' = cwd s"
  proof cases
    case nb
    with assms(1) have w: "open_write (d @ [''solution.ipynb'']) (Notebook solution_notebook) s = (Done, s')"
      by simp
    from open_write_listing [OF w] assms(2) nb show ?thesis by (auto simp: with_stub_def)
  next
    case py
    with assms(1) have w: "open_write (d @ [''solution.py''])
                   (Text ''import pandas as pd\<newline>import numpy as np'') s = (Done, s')"
      by simp
    from open_write_listing [OF w] assms(2) py show ?thesis by (auto simp: with_stub_def)
  next
    case none
    with assms show ?thesis by (auto simp: with_stub_def)
  qed
  then show "\<exists>es'. lookup (root s') d = Some (Dir es') \<and> map_of es' = with_stub project_type (map_of es)"
    and "cwd s' = cwd s" by blast+
qed

lemma file_creations_Done:
  assumes "file_creations project_type s = (Done, s')"
  shows "\<exists>es es'. lookup (root s) (cwd s) = Some (Dir es) \<and>
           lookup (root s') (cwd s) = Some (Dir es') \<and>
           map_of es' = written project_type (map_of es)"
    and "cwd s' = cwd s"
proof -
  from assms obtain a b c where
    a: "(if \<not> os_path_exists (cwd s @ [''data'']) s then os_mkdir (cwd s @ [''data'']) s
         else (Done, s)) = (Done, a)" and
    b: "open_write (cwd a @ [''requirements.txt'']) (Text (str_join ''\<newline>'' PACKAGES)) a = (Done, b)" and
    c: "open_write (cwd b @ [''.gitignore'']) (Text (str_join ''\<newline>'' ignore_file_types)) b = (Done, c)" and
    d: "(if project_type = Some ''jupyter-notebook''
            then open_write (cwd c @ [''solution.ipynb'']) (Notebook solution_notebook) c
            else if project_type = Some ''python''
            then open_write (cwd c @ [''solution.py''])
                   (Text ''import pandas as pd\<newline>import numpy as np'') c
            else (Done, c)) = (Done, s')"
    unfolding file_creations_def and_then_Done Let_def by blast
  have ca: "cwd a = cwd s" using data_step(2) [OF a] .
  have cb: "cwd b = cwd s" using open_write_listing(2) [OF b] ca by simp
  have cc: "cwd c = cwd s" using open_write_listing(2) [OF c] cb by simp
  from data_step(1) [OF a] obtain es esa where
    1: "lookup (root s) (cwd s) = Some (Dir es)" "lookup (root a) (cwd s) = Some (Dir esa)"
       "map_of esa = with_data (map_of es)"
    by blast
  from open_write_listing(1) [OF b] 1(2) ca obtain esb where
    2: "lookup (root b) (cwd s) = Some (Dir esb)"
       "map_of esb = (map_of esa)(''requirements.txt'' \<mapsto> File (Text (str_join ''\<newline>'' PACKAGES)))"
    by auto
  from open_write_listing(1) [OF c] 2(1) cb obtain esc where
    3: "lookup (root c) (cwd s) = Some (Dir esc)"
       "map_of esc = (map_of esb)(''.gitignore'' \<mapsto> File (Text (str_join ''\<newline>'' ignore_file_types)))"
    by auto
  note d' = d [unfolded cc]
  from stub_step(1) [OF d' 3(1)] obtain es' where
    4: "lookup (root s') (cwd s) = Some (Dir es')" "map_of es' = with_stub project_type (map_of esc)"
    by blast
  have "map_of es' = written project_type (map_of es)"
    using 1(3) 2(2) 3(2) 4(2) by (simp add: written_def)
  with 1(1) 4(1) show "\<exists>es es'. lookup (root s) (cwd s) = Some (Dir es) \<and>
           lookup (root s') (cwd s) = Some (Dir es') \<and>
           map_of es' = written project_type (map_of es)" by blast
  show "cwd s' = cwd s" using stub_step(2) [OF d' 3(1)] cc by simp
qed

lemma scaffold_only_iff:
  "scaffold_only es \<longleftrightarrow> (\<forall>n v. map_of es n = Some v \<longrightarrow> scaffold_entry n v)"
proof
  assume a: "scaffold_only es"
  show "\<forall>n v. map_of es n = Some v \<longrightarrow> scaffold_entry n v"
  proof (intro allI impI)
    fix n v assume m: "map_of es n = Some v"
    then have "(n, v) \<in> set es" by (rule map_of_SomeD)
    then have "fst (n, v) \<in> fst ` set es" by (rule imageI)
    then have "n \<in> set (map fst es)" by simp
    with a have "case map_of es n of None \<Rightarrow> True | Some v \<Rightarrow> scaffold_entry n v"
      unfolding scaffold_only_def by (rule bspec)
    with m show "scaffold_entry n v" by simp
  qed
next
  assume b: "\<forall>n v. map_of es n = Some v \<longrightarrow> scaffold_entry n v"
  show "scaffold_only es"
    unfolding scaffold_only_def
  proof
    fix n assume "n \<in> set (map fst es)"
    show "case map_of es n of None \<Rightarrow> True | Some v \<Rightarrow> scaffold_entry n v"
      using b by (cases "map_of es n") simp_all
  qed
qed

lemma scaffold_ground:
  "scaffold_entry ''.venv'' (Dir sub)" "scaffold_entry ''.git'' (Dir sub)"
  "scaffold_entry ''data'' (Dir sub)"
  "scaffold_entry ''requirements.txt'' (File c)" "scaffold_entry ''.gitignore'' (File c)"
  "scaffold_entry ''solution.ipynb'' (File c)" "scaffold_entry ''solution.py'' (File c)"
  by (simp_all add: scaffold_entry_def folders_to_remove_def files_to_remove_def)

lemma tools_effect_refl: "tools_effect es es"
  by (simp add: tools_effect_def)

lemma tools_effect_trans: "tools_effect a b \<Longrightarrow> tools_effect b c \<Longrightarrow> tools_effect a c"
  unfolding tools_effect_def by metis

lemma tools_effect_entry:
  assumes "tools_effect es es'" and "map_of es' n = Some v"
  shows "map_of es n = Some v \<or> scaffold_entry n v"
proof (cases v)
  case (File c)
  with assms show ?thesis unfolding tools_effect_def by metis
next
  case (Dir sub)
  show ?thesis
  proof (cases "n = ''.venv''")
    case True
    show ?thesis unfolding True Dir by (rule disjI2) (rule scaffold_ground)
  next
    case v: False
    show ?thesis
    proof (cases "n = ''.git''")
      case True
      show ?thesis unfolding True Dir by (rule disjI2) (rule scaffold_ground)
    next
      case False
      with v have "n \<notin> {''.venv'', ''.git''}" by (simp only: insert_iff empty_iff simp_thms)
      with assms have "map_of es n = Some v" unfolding tools_effect_def by metis
      then show ?thesis by (rule disjI1)
    qed
  qed
qed

lemma tools_effect_scaffold:
  assumes "tools_effect es es'" and "scaffold_only es"
  shows "scaffold_only es'"
  unfolding scaffold_only_iff
proof (intro allI impI)
  fix n v assume "map_of es' n = Some v"
  from tools_effect_entry [OF assms(1) this] assms(2)
  show "scaffold_entry n v" unfolding scaffold_only_iff by metis
qed

lemma upd_cases:
  "(m(a \<mapsto> x)) n = Some v \<Longrightarrow> m n = Some v \<or> (n = a \<and> v = x)"
  by (auto split: if_splits)

lemma with_data_entry:
  assumes "with_data m n = Some v"
  shows "m n = Some v \<or> scaffold_entry n v"
proof (cases "m ''data'' = None")
  case False
  with assms show ?thesis unfolding with_data_def by (simp only: if_False simp_thms)
next
  case True
  with assms have "(m(''data'' \<mapsto> Dir [])) n = Some v"
    unfolding with_data_def by (simp only: if_True simp_thms)
  from upd_cases [OF this] show ?thesis
  proof
    assume "m n = Some v" then show ?thesis by (rule disjI1)
  next
    assume "n = ''data'' \<and> v = Dir []"
    then have n: "n = ''data''" and v: "v = Dir []" by (rule conjunct1, rule conjunct2)
    show ?thesis unfolding n v by (rule disjI2) (rule scaffold_ground)
  qed
qed

lemma upd_file_entry:
  assumes "(m(a \<mapsto> File c)) n = Some v" and "scaffold_entry a (File c)"
    and "\<And>v. m n = Some v \<Longrightarrow> k n = Some v \<or> scaffold_entry n v"
  shows "k n = Some v \<or> scaffold_entry n v"
  using upd_cases [OF assms(1)]
proof
  assume "m n = Some v" then show ?thesis by (rule assms(3))
next
  assume "n = a \<and> v = File c"
  then have n: "n = a" and v: "v = File c" by (rule conjunct1, rule conjunct2)
  show ?thesis unfolding n v by (rule disjI2) (rule assms(2))
qed

lemma with_stub_entry:
  assumes "with_stub project_type m n = Some v"
    and old: "\<And>v. m n = Some v \<Longrightarrow> k n = Some v \<or> scaffold_entry n v"
  shows "k n = Some v \<or> scaffold_entry n v"
proof (cases "project_type = Some ''jupyter-notebook''")
  case True
  with assms(1) have "(m(''solution.ipynb'' \<mapsto> File (Notebook solution_notebook))) n = Some v"
    unfolding with_stub_def by (simp only: if_True simp_thms)
  then show ?thesis by (rule upd_file_entry) (rule scaffold_ground, rule old)
next
  case nb: False
  show ?thesis
  proof (cases "project_type = Some ''python''")
    case True
    with assms(1) nb have "(m(''solution.py'' \<mapsto>
        File (Text ''import pandas as pd\<newline>import numpy as np''))) n = Some v"
      unfolding with_stub_def by (simp only: if_True if_False simp_thms)
    then show ?thesis by (rule upd_file_entry) (rule scaffold_ground, rule old)
  next
    case False
    with assms(1) nb have "m n = Some v" unfolding with_stub_def by (simp only: if_False simp_thms)
    then show ?thesis by (rule old)
  qed
qed

lemma written_entry:
  assumes "written project_type m n = Some v"
  shows "m n = Some v \<or> scaffold_entry n v"
proof -
  from assms have "with_stub project_type
       ((with_data m)(''requirements.txt'' \<mapsto> File (Text (str_join ''\<newline>'' PACKAGES)),
                      ''.gitignore'' \<mapsto> File (Text (str_join ''\<newline>'' ignore_file_types)))) n
     = Some v"
    unfolding written_def .
  then show ?thesis
  proof (rule with_stub_entry)
    fix v assume "((with_data m)(''requirements.txt'' \<mapsto> File (Text (str_join ''\<newline>'' PACKAGES)),
                      ''.gitignore'' \<mapsto> File (Text (str_join ''\<newline>'' ignore_file_types)))) n
     = Some v"
    then show "m n = Some v \<or> scaffold_entry n v"
    proof (rule upd_file_entry)
      show "scaffold_entry ''.gitignore'' (File (Text (str_join ''\<newline>'' ignore_file_types)))"
        by (rule scaffold_ground)
      fix v assume "((with_data m)(''requirements.txt'' \<mapsto> File (Text (str_join ''\<newline>'' PACKAGES)))) n
          = Some v"
      then show "m n = Some v \<or> scaffold_entry n v"
        by (rule upd_file_entry) (rule scaffold_ground, rule with_data_entry)
    qed
  qed
qed

lemma written_scaffold:
  assumes "scaffold_only es" and "map_of es' = written project_type (map_of es)"
  shows "scaffold_only es'"
  unfolding scaffold_only_iff
proof (intro allI impI)
  fix n v assume "map_of es' n = Some v"
  with assms(2) have "written project_type (map_of es) n = Some v" by (simp only:)
  from written_entry [OF this] assms(1)
  show "scaffold_entry n v" unfolding scaffold_only_iff by metis
qed

lemma tools_step:
  assumes "tools_confined env d" and "cwd s = d" and "lookup (root s) d = Some (Dir es)"
    and "subprocess_run env c s = (Done, s')"
  shows "\<exists>es'. lookup (root s') d = Some (Dir es') \<and> tools_effect es es'" and "cwd s' = d"
proof -
  from subprocess_run_Done [OF assms(4)] assms(2)
  have sp: "spawn env c d (root s) = Inr (root s')" and c: "cwd s' = d" by simp_all
  from assms(1) sp assms(3)
  show "\<exists>es'. lookup (root s') d = Some (Dir es') \<and> tools_effect es es'"
    unfolding tools_confined_def by blast
  show "cwd s' = d" by (rule c)
qed

lemma environment_setup_steps:
  assumes "environment_setup env d s = (Done, s')"
  shows "\<exists>s1.
    (os_path_exists d s \<longrightarrow>
       subprocess_run env (Argv [sys_executable env, ''-m'', ''venv'', ''.venv'']) s = (Done, s1)) \<and>
    (\<not> os_path_exists d s \<longrightarrow> s1 = s) \<and>
    (\<forall>c. install_command (os_name env) (os_path_join (os_name env) (path_str env d) ''.venv'') = Some c
       \<longrightarrow> subprocess_run env (Shell c) s1 = (Done, s')) \<and>
    (install_command (os_name env) (os_path_join (os_name env) (path_str env d) ''.venv'') = None
       \<longrightarrow> s' = s1)"
proof -
  from assms obtain s1 where
    a: "(if os_path_exists d s
         then subprocess_run env (Argv [sys_executable env, ''-m'', ''venv'', ''.venv'']) s
         else (Done, s)) = (Done, s1)" and
    b: "(case install_command (os_name env) (os_path_join (os_name env) (path_str env d) ''.venv'') of
           Some c \<Rightarrow> subprocess_run env (Shell c) s1 | None \<Rightarrow> (Done, s1)) = (Done, s')"
    unfolding environment_setup_def and_then_Done Let_def by blast
  have 1: "os_path_exists d s \<longrightarrow>
       subprocess_run env (Argv [sys_executable env, ''-m'', ''venv'', ''.venv'']) s = (Done, s1)"
    using a by (cases "os_path_exists d s") (simp_all only: if_True if_False simp_thms)
  have 2: "\<not> os_path_exists d s \<longrightarrow> s1 = s"
    using a by (cases "os_path_exists d s") (simp_all only: if_True if_False prod.inject simp_thms)
  have 3: "\<forall>c. install_command (os_name env) (os_path_join (os_name env) (path_str env d) ''.venv'') = Some c
       \<longrightarrow> subprocess_run env (Shell c) s1 = (Done, s')"
    using b
    by (cases "install_command (os_name env) (os_path_join (os_name env) (path_str env d) ''.venv'')")
      (simp_all only: option.case option.inject option.distinct simp_thms)
  have 4: "install_command (os_name env) (os_path_join (os_name env) (path_str env d) ''.venv'') = None
       \<longrightarrow> s' = s1"
    using b
    by (cases "install_command (os_name env) (os_path_join (os_name env) (path_str env d) ''.venv'')")
      (simp_all only: option.case option.distinct prod.inject simp_thms)
  from 1 2 3 4 show ?thesis by (intro exI [of _ s1] conjI)
qed

lemma environment_setup_cwd:
  assumes "environment_setup env d s = (Done, s')"
  shows "cwd s' = cwd s"
proof -
  obtain s1 where
    a: "os_path_exists d s \<Longrightarrow>
       subprocess_run env (Argv [sys_executable env, ''-m'', ''venv'', ''.venv'']) s = (Done, s1)"
      "\<not> os_path_exists d s \<Longrightarrow> s1 = s" and
    b: "\<And>c. install_command (os_name env) (os_path_join (os_name env) (path_str env d) ''.venv'') = Some c
       \<Longrightarrow> subprocess_run env (Shell c) s1 = (Done, s')"
    "install_command (os_name env) (os_path_join (os_name env) (path_str env d) ''.venv'') = None
       \<Longrightarrow> s' = s1"
    using environment_setup_steps [OF assms(1)] by (elim exE conjE) (rule that, simp_all only: simp_thms)
  have 1: "cwd s1 = cwd s"
  proof (cases "os_path_exists d s")
    case True
    from subprocess_run_Done(2) [OF a(1) [OF True]] show ?thesis .
  next
    case False
    from a(2) [OF False] show ?thesis by (simp only:)
  qed
  have 2: "cwd s' = cwd s1"
  proof (cases "install_command (os_name env) (os_path_join (os_name env) (path_str env d) ''.venv'')")
    case None
    from b(2) [OF None] show ?thesis by (simp only:)
  next
    case (Some c)
    from subprocess_run_Done(2) [OF b(1) [OF Some]] show ?thesis .
  qed
  from 1 2 show ?thesis by (simp only:)
qed

lemma environment_setup_root:
  assumes "environment_setup env d s = (Done, s')" and "lookup (root s) d = Some (Dir es)"
    and "cwd s = d" and "tools_confined env d"
  shows "\<exists>es'. lookup (root s') d = Some (Dir es') \<and> tools_effect es es'"
proof -
  obtain s1 where
    a: "os_path_exists d s \<Longrightarrow>
       subprocess_run env (Argv [sys_executable env, ''-m'', ''venv'', ''.venv'']) s = (Done, s1)"
      "\<not> os_path_exists d s \<Longrightarrow> s1 = s" and
    b: "\<And>c. install_command (os_name env) (os_path_join (os_name env) (path_str env d) ''.venv'') = Some c
       \<Longrightarrow> subprocess_run env (Shell c) s1 = (Done, s')"
    "install_command (os_name env) (os_path_join (os_name env) (path_str env d) ''.venv'') = None
       \<Longrightarrow> s' = s1"
    using environment_setup_steps [OF assms(1)] by (elim exE conjE) (rule that, simp_all only: simp_thms)
  have "\<exists>es1. lookup (root s1) d = Some (Dir es1) \<and> tools_effect es es1 \<and> cwd s1 = d"
  proof (cases "os_path_exists d s")
    case True
    from tools_step [OF assms(4,3,2) a(1) [OF True]] show ?thesis by blast
  next
    case False
    from a(2) [OF False] assms(2,3) tools_effect_refl [of es] show ?thesis by blast
  qed
  then obtain es1 where es1: "lookup (root s1) d = Some (Dir es1)" "tools_effect es es1" "cwd s1 = d"
    by blast
  show ?thesis
  proof (cases "install_command (os_name env) (os_path_join (os_name env) (path_str env d) ''.venv'')")
    case None
    from b(2) [OF None] es1 show ?thesis by blast
  next
    case (Some c)
    from tools_step(1) [OF assms(4) es1(3,1) b(1) [OF Some]] es1(2) show ?thesis
      by (blast intro: tools_effect_trans)
  qed
qed

lemma main_create_steps:
  assumes "main env file_path folder_name project_type git False verbose s = (Done, s')"
    and "full = resolve env (cwd s) (os_path_join (os_name env) file_path folder_name)"
  shows "\<exists>s1 s2 s3 s4.
      (if \<not> os_path_exists full s then os_mkdir full s else (Done, s)) = (Done, s1) \<and>
      os_chdir full s1 = (Done, s2) \<and>
      environment_setup env full s2 = (Done, s3) \<and>
      (if git then subprocess_run env (Argv [''git'', ''init'']) s3 else (Done, s3)) = (Done, s4) \<and>
      file_creations project_type s4 = (Done, s')"
  using assms(1) unfolding main_def Let_def assms(2) [symmetric]
  by (simp only: if_False and_then_Done) blast

subsection \<open>Teardown\<close>

lemma safe_delete_dir:
  assumes run: "safe_delete t s = (out, s')" and dir: "lookup (root s) t = Some (Dir es)"
  shows "out = Done \<longrightarrow> t \<noteq> [] \<and> (\<forall>q. lookup (root s') (t @ q) = None) \<and>
           (\<forall>x. x \<notin> set folders_to_remove \<union> set files_to_remove \<longrightarrow> map_of es x = None)"
    (is "?gone")
    and "out \<noteq> Done \<longrightarrow> (\<exists>es'. lookup (root s') t = Some (Dir es') \<and>
           (\<forall>x. x \<notin> set folders_to_remove \<union> set files_to_remove \<longrightarrow> map_of es' x = map_of es x))"
    (is "?kept")
proof -
  from safe_delete_cases [OF run] consider
    (folders) e where "for_each folders_to_remove (remove_folder t) s = (Raised e, s')" "out = Raised e"
  | (files) s1 e where "for_each folders_to_remove (remove_folder t) s = (Done, s1)"
      "for_each files_to_remove (remove_file t) s1 = (Raised e, s')" "out = Raised e"
  | (rmdir) s1 s2 where "for_each folders_to_remove (remove_folder t) s = (Done, s1)"
      "for_each files_to_remove (remove_file t) s1 = (Done, s2)" "os_rmdir t s2 = (out, s')"
    by blast
  then have "?gone \<and> ?kept"
  proof cases
    case folders
    from folders(2) folders_loop [OF dir folders(1)]
    show ?thesis by auto
  next
    case files
    from folders_loop [OF dir files(1)]
    obtain es1 where es1: "lookup (root s1) t = Some (Dir es1)"
      "\<forall>x. x \<notin> set folders_to_remove \<longrightarrow> map_of es1 x = map_of es x"
      by blast
    from files_loop [OF es1(1) files(2)]
    obtain es2 where es2: "lookup (root s') t = Some (Dir es2)"
      "\<forall>x. x \<notin> set files_to_remove \<longrightarrow> map_of es2 x = map_of es1 x"
      by blast
    from es1(2) es2 files(3) show ?thesis by auto
  next
    case rmdir
    from folders_loop [OF dir rmdir(1)]
    obtain es1 where es1: "lookup (root s1) t = Some (Dir es1)"
      "\<forall>x. x \<notin> set folders_to_remove \<longrightarrow> map_of es1 x = map_of es x"
      by blast
    from files_loop [OF es1(1) rmdir(2)]
    obtain es2 where es2: "lookup (root s2) t = Some (Dir es2)"
      "\<forall>x. x \<notin> set files_to_remove \<longrightarrow> map_of es2 x = map_of es1 x"
      by blast
    have keep: "\<forall>x. x \<notin> set folders_to_remove \<union> set files_to_remove \<longrightarrow> map_of es2 x = map_of es x"
      using es1(2) es2(2) by simp
    show ?thesis
    proof (cases out)
      case Done
      with rmdir(3) have r: "os_rmdir t s2 = (Done, s')" by simp
      from os_rmdir_Done(2) [OF r] es2(1) have "es2 = []" by simp
      with keep have "\<forall>x. x \<notin> set folders_to_remove \<union> set files_to_remove \<longrightarrow> map_of es x = None"
        by simp
      with os_rmdir_Done(1,3) [OF r] Done show ?thesis by blast
    next
      case (Raised e)
      with rmdir(3) have "s' = s2" by (auto dest: os_rmdir_Raised)
      with es2(1) keep Raised show ?thesis by auto
    qed
  qed
  then show ?gone and ?kept by blast+
qed

lemma safe_delete_no_dir:
  assumes run: "safe_delete t s = (out, s')" and nodir: "\<And>es. lookup (root s) t \<noteq> Some (Dir es)"
  shows "out \<noteq> Done \<and> s' = s"
proof -
  have a: "for_each folders_to_remove (remove_folder t) s = (Done, s)"
    by (rule for_each_no_dir [where t = t]) (simp_all add: remove_folder_no_dir nodir)
  have b: "for_each files_to_remove (remove_file t) s = (Done, s)"
    by (rule for_each_no_dir [where t = t]) (simp_all add: remove_file_no_dir nodir)
  from run a b have r: "os_rmdir t s = (out, s')" by (simp add: safe_delete_def and_then_def)
  show ?thesis
  proof (cases out)
    case Done
    with r os_rmdir_Done(2) [of t s s'] nodir show ?thesis by simp
  next
    case (Raised e)
    with r show ?thesis by (auto dest: os_rmdir_Raised)
  qed
qed

lemma demo_notes_run:
  "safe_delete [''tmp'', ''demo1''] demo_notes =
     (Raised OSError_ENOTEMPTY,
      \<lparr>root = Dir [(''tmp'', Dir [(''demo1'', Dir [(''notes.md'', File (Text ''to do''))])])],
       cwd = []\<rparr>)"
  by code_simp

lemma demo_clean_run:
  "safe_delete [''tmp'', ''demo1''] demo_clean = (Done, \<lparr>root = Dir [(''tmp'', Dir [])], cwd = []\<rparr>)"
  by code_simp

subsection \<open>The create path\<close>

lemma written_requirements:
  "written project_type m ''requirements.txt'' = Some (File (Text (str_join ''\<newline>'' PACKAGES)))"
  by (simp add: written_def with_stub_def)

lemma written_gitignore:
  "written project_type m ''.gitignore'' = Some (File (Text (str_join ''\<newline>'' ignore_file_types)))"
  by (simp add: written_def with_stub_def)

lemma written_ipynb:
  "written project_type m ''solution.ipynb'' =
     (if project_type = Some ''jupyter-notebook'' then Some (File (Notebook solution_notebook))
      else m ''solution.ipynb'')"
  by (simp add: written_def with_stub_def with_data_def)

lemma written_py:
  "written project_type m ''solution.py'' =
     (if project_type = Some ''python''
      then Some (File (Text ''import pandas as pd\<newline>import numpy as np''))
      else m ''solution.py'')"
  by (simp add: written_def with_stub_def with_data_def)


lemma requirements_text:
  "str_join ''\<newline>'' PACKAGES =
     ''numpy\<newline>pandas\<newline>openpyxl\<newline>scikit-learn\<newline>matplotlib\<newline>seaborn\<newline>notebook''"
  by (simp add: PACKAGES_def)

lemma gitignore_text:
  "str_join ''\<newline>'' ignore_file_types =
     ''*.txt\<newline>*.csv\<newline>*.xlsx\<newline>*.xls\<newline>*.ipynb_checkpoints\<newline>*.vscode\<newline>.git''"
  by (simp add: ignore_file_types_def)

lemma solution_notebook_cells:
  "solution_notebook =
     \<lparr>nbformat = 4,
      cells = [Markdown_cell ''# Solution Notebook'',
               Code_cell ''import numpy as np\<newline>import pandas as pd'']\<rparr>"
  by (simp add: solution_notebook_def new_notebook_def new_markdown_cell_def new_code_cell_def)

lemma main_create_written:
  assumes "main env file_path folder_name project_type git False verbose s = (Done, s')"
    and "full = resolve env (cwd s) (os_path_join (os_name env) file_path folder_name)"
  shows "\<exists>es es'. lookup (root s') full = Some (Dir es') \<and>
           map_of es' = written project_type (map_of es)"
proof -
  from main_create_steps [OF assms] obtain s1 s2 s3 s4 where
    st: "os_chdir full s1 = (Done, s2)" "environment_setup env full s2 = (Done, s3)"
      "(if git then subprocess_run env (Argv [''git'', ''init'']) s3 else (Done, s3)) = (Done, s4)"
      "file_creations project_type s4 = (Done, s')"
    by blast
  have 2: "cwd s2 = full" using os_chdir_Done(3) [OF st(1)] .
  have 3: "cwd s3 = full" using environment_setup_cwd [OF st(2)] 2 by (simp only:)
  have 4: "cwd s4 = full"
  proof (cases git)
    case True
    with st(3) have "subprocess_run env (Argv [''git'', ''init'']) s3 = (Done, s4)"
      by (simp only: if_True)
    from subprocess_run_Done(2) [OF this] 3 show ?thesis by (simp only:)
  next
    case False
    with st(3) have "s4 = s3" by (simp only: if_False prod.inject simp_thms)
    with 3 show ?thesis by (simp only:)
  qed
  from file_creations_Done(1) [OF st(4)] show ?thesis unfolding 4 by blast
qed

lemma main_create_entry:
  assumes "main env file_path folder_name project_type git False verbose s = (Done, s')"
    and "full = resolve env (cwd s) (os_path_join (os_name env) file_path folder_name)"
  shows "\<exists>m. \<forall>n. lookup (root s') (full @ [n]) = written project_type m n"
proof -
  from main_create_written [OF assms] obtain es es' where
    "lookup (root s') full = Some (Dir es')" "map_of es' = written project_type (map_of es)"
    by blast
  then have "\<forall>n. lookup (root s') (full @ [n]) = written project_type (map_of es) n"
    by (simp add: lookup_child split: option.splits)
  then show ?thesis by blast
qed

lemma names_disjoint: "set folders_to_remove \<inter> set files_to_remove = {}"
  by (simp add: folders_to_remove_def files_to_remove_def)


lemma scaffold_folder_ok:
  assumes "scaffold_only es" and "m \<in> set folders_to_remove"
  shows "map_of es m \<noteq> Some (File c)"
proof
  assume "map_of es m = Some (File c)"
  with assms(1) have "scaffold_entry m (File c)" unfolding scaffold_only_iff by blast
  then have "m \<in> set files_to_remove" by (simp add: scaffold_entry_def)
  with assms(2) names_disjoint show False by blast
qed

lemma scaffold_file_ok:
  assumes "scaffold_only es" and "m \<in> set files_to_remove"
  shows "map_of es m \<noteq> Some (Dir sub)"
proof
  assume "map_of es m = Some (Dir sub)"
  with assms(1) have "scaffold_entry m (Dir sub)" unfolding scaffold_only_iff by blast
  then have "m \<in> set folders_to_remove" by (simp add: scaffold_entry_def)
  with assms(2) names_disjoint show False by blast
qed

lemma scaffold_covered:
  assumes "scaffold_only es" and "m \<notin> set folders_to_remove" and "m \<notin> set files_to_remove"
  shows "map_of es m = None"
proof (cases "map_of es m")
  case None
  then show ?thesis .
next
  case (Some v)
  with assms(1) have "scaffold_entry m v" unfolding scaffold_only_iff by blast
  with assms(2,3) show ?thesis by (cases v) (simp_all add: scaffold_entry_def)
qed

lemma folders_loop_succeeds:
  assumes "lookup (root s) t = Some (Dir es)"
    and "\<forall>m \<in> set ms. \<forall>c. map_of es m \<noteq> Some (File c)"
  shows "fst (for_each ms (remove_folder t) s) = Done"
proof (rule for_each_succeeds [where body = "remove_folder t" and t = t
      and good = "\<lambda>v. \<forall>c. v \<noteq> Some (File c)" and es = es])
  show "\<And>m s es out s'. lookup (root s) t = Some (Dir es) \<Longrightarrow> remove_folder t m s = (out, s') \<Longrightarrow>
      \<exists>es'. lookup (root s') t = Some (Dir es') \<and>
        (\<forall>x. x \<noteq> m \<longrightarrow> map_of es' x = map_of es x) \<and> (out = Done \<longrightarrow> map_of es' m = None)"
    by (rule remove_folder_step)
  show "\<And>m s es. lookup (root s) t = Some (Dir es) \<Longrightarrow> \<forall>c. map_of es m \<noteq> Some (File c) \<Longrightarrow>
      fst (remove_folder t m s) = Done"
    by (rule remove_folder_succeeds) blast+
  show "\<forall>c. None \<noteq> Some (File c)" by simp
  show "lookup (root s) t = Some (Dir es)" by fact
  show "\<forall>m \<in> set ms. \<forall>c. map_of es m \<noteq> Some (File c)" by fact
qed

lemma files_loop_succeeds:
  assumes "lookup (root s) t = Some (Dir es)"
    and "\<forall>m \<in> set ms. \<forall>sub. map_of es m \<noteq> Some (Dir sub)"
  shows "fst (for_each ms (remove_file t) s) = Done"
proof (rule for_each_succeeds [where body = "remove_file t" and t = t
      and good = "\<lambda>v. \<forall>sub. v \<noteq> Some (Dir sub)" and es = es])
  show "\<And>m s es out s'. lookup (root s) t = Some (Dir es) \<Longrightarrow> remove_file t m s = (out, s') \<Longrightarrow>
      \<exists>es'. lookup (root s') t = Some (Dir es') \<and>
        (\<forall>x. x \<noteq> m \<longrightarrow> map_of es' x = map_of es x) \<and> (out = Done \<longrightarrow> map_of es' m = None)"
    by (rule remove_file_step)
  show "\<And>m s es. lookup (root s) t = Some (Dir es) \<Longrightarrow> \<forall>sub. map_of es m \<noteq> Some (Dir sub) \<Longrightarrow>
      fst (remove_file t m s) = Done"
    by (rule remove_file_succeeds) blast+
  show "\<forall>sub. None \<noteq> Some (Dir sub)" by simp
  show "lookup (root s) t = Some (Dir es)" by fact
  show "\<forall>m \<in> set ms. \<forall>sub. map_of es m \<noteq> Some (Dir sub)" by fact
qed

lemma safe_delete_succeeds:
  assumes "t \<noteq> []" and "lookup (root s) t = Some (Dir es)" and "scaffold_only es"
  shows "\<exists>s'. safe_delete t s = (Done, s') \<and> lookup (root s') t = None"
proof -
  have "fst (for_each folders_to_remove (remove_folder t) s) = Done"
    using assms(2) scaffold_folder_ok [OF assms(3)] by (intro folders_loop_succeeds) blast+
  then obtain s1 where a: "for_each folders_to_remove (remove_folder t) s = (Done, s1)"
    by (cases "for_each folders_to_remove (remove_folder t) s") simp
  from folders_loop [OF assms(2) a] obtain es1 where
    es1: "lookup (root s1) t = Some (Dir es1)"
      "\<forall>x. map_of es1 x = (if x \<in> set folders_to_remove then None else map_of es x)"
    by blast
  have "\<forall>m \<in> set files_to_remove. \<forall>sub. map_of es1 m \<noteq> Some (Dir sub)"
  proof (intro ballI allI)
    fix m sub assume "m \<in> set files_to_remove"
    from scaffold_file_ok [OF assms(3) this] es1(2)
    show "map_of es1 m \<noteq> Some (Dir sub)" by (cases "m \<in> set folders_to_remove") simp_all
  qed
  with es1(1) have "fst (for_each files_to_remove (remove_file t) s1) = Done"
    by (rule files_loop_succeeds)
  then obtain s2 where b: "for_each files_to_remove (remove_file t) s1 = (Done, s2)"
    by (cases "for_each files_to_remove (remove_file t) s1") simp
  from files_loop [OF es1(1) b] obtain es2 where
    es2: "lookup (root s2) t = Some (Dir es2)"
      "\<forall>x. map_of es2 x = (if x \<in> set files_to_remove then None else map_of es1 x)"
    by blast
  have "map_of es2 x = None" for x
    using es2(2) es1(2) scaffold_covered [OF assms(3), of x] by simp
  then have "map_of es2 = Map.empty" by (rule ext)
  then have "es2 = []" by simp
  with es2(1) have "lookup (root s2) t = Some (Dir [])" by simp
  from os_rmdir_succeeds [OF assms(1) this] obtain s' where c: "os_rmdir t s2 = (Done, s')"
    by blast
  from os_rmdir_Done(3) [OF c, of "[]"] have "lookup (root s') t = None" by simp
  moreover from a b c have "safe_delete t s = (Done, s')"
    by (simp add: safe_delete_def and_then_def)
  ultimately show ?thesis by blast
qed

lemma main_create_tools:
  assumes run: "main env file_path folder_name project_type git False verbose s = (Done, s')"
    and full: "full = resolve env (cwd s) (os_path_join (os_name env) file_path folder_name)"
    and tools: "tools_confined env full"
  shows "\<exists>es0 es4 es'.
      ((lookup (root s) full = None \<and> es0 = [] \<and> full \<noteq> []) \<or>
       lookup (root s) full = Some (Dir es0)) \<and>
      tools_effect es0 es4 \<and>
      lookup (root s') full = Some (Dir es') \<and>
      map_of es' = written project_type (map_of es4)"
proof -
  from main_create_steps [OF run full] obtain s1 s2 s3 s4 where
    st0: "(if \<not> os_path_exists full s then os_mkdir full s else (Done, s)) = (Done, s1)" and
    st: "os_chdir full s1 = (Done, s2)" "environment_setup env full s2 = (Done, s3)"
      "(if git then subprocess_run env (Argv [''git'', ''init'']) s3 else (Done, s3)) = (Done, s4)"
      "file_creations project_type s4 = (Done, s')"
    by blast
  from os_chdir_Done [OF st(1)] obtain es0 where
    es0: "lookup (root s1) full = Some (Dir es0)" and r2: "root s2 = root s1" and c2: "cwd s2 = full"
    by blast
  have start: "(lookup (root s) full = None \<and> es0 = [] \<and> full \<noteq> []) \<or>
       lookup (root s) full = Some (Dir es0)"
  proof (cases "os_path_exists full s")
    case True
    with st0 have "s1 = s" by (simp only: if_False prod.inject simp_thms)
    with es0 show ?thesis by simp
  next
    case False
    with st0 have mk: "os_mkdir full s = (Done, s1)" by (simp only: if_True simp_thms)
    from os_mkdir_Done [OF mk] es0 have "full \<noteq> []" "es0 = []" by simp_all
    moreover from False have "lookup (root s) full = None" by (simp add: os_path_exists_def)
    ultimately show ?thesis by blast
  qed
  from es0 r2 have l2: "lookup (root s2) full = Some (Dir es0)" by simp
  from environment_setup_root [OF st(2) l2 c2 tools] obtain es3 where
    es3: "lookup (root s3) full = Some (Dir es3)" "tools_effect es0 es3"
    by blast
  have c3: "cwd s3 = full" using environment_setup_cwd [OF st(2)] c2 by (simp only:)
  have "\<exists>es4. lookup (root s4) full = Some (Dir es4) \<and> tools_effect es0 es4 \<and> cwd s4 = full"
  proof (cases git)
    case True
    with st(3) have g: "subprocess_run env (Argv [''git'', ''init'']) s3 = (Done, s4)"
      by (simp only: if_True)
    from tools_step [OF tools c3 es3(1) g] es3(2) show ?thesis
      by (blast intro: tools_effect_trans)
  next
    case False
    with st(3) have "s4 = s3" by (simp only: if_False prod.inject simp_thms)
    with es3 c3 show ?thesis by blast
  qed
  then obtain es4 where
    es4: "lookup (root s4) full = Some (Dir es4)" "tools_effect es0 es4" and c4: "cwd s4 = full"
    by blast
  from file_creations_Done(1) [OF st(4)] es4(1) obtain es' where
    "lookup (root s') full = Some (Dir es')" "map_of es' = written project_type (map_of es4)"
    unfolding c4 by auto
  with start es4(2) show ?thesis by blast
qed

lemma main_cleanup:
  "main env file_path folder_name project_type git True verbose s =
     (if os_path_exists (project_dir env (cwd s) file_path folder_name) s
      then safe_delete (project_dir env (cwd s) file_path folder_name) s
      else (Raised (ArgumentTypeError ''Invalid file path supplied.''), s))"
  by (simp add: main_def verify_directory_def project_dir_def Let_def)

lemma demo_run_python:
  "main demo_env ''/tmp'' ''demo1'' (Some ''python'') True False True demo_state
     = (Done, demo_python_project)"
  by code_simp

lemma demo_run_notebook:
  "main demo_env ''/tmp'' ''demo1'' (Some ''jupyter-notebook'') False False True demo_state
     = (Done, demo_notebook_project)"
  by code_simp

lemma demo_run_cleanup:
  "main demo_env ''/tmp'' ''demo1'' None False True True (demo_python_project\<lparr>cwd := []\<rparr>)
     = (Done, \<lparr>root = Dir [(''tmp'', Dir [])], cwd = []\<rparr>)"
  by code_simp

lemma upd_effect_generic:
  "name \<in> S \<Longrightarrow>
     (\<forall>n. n \<notin> S \<longrightarrow> (m(name \<mapsto> Dir sub)) n = m n) \<and>
     (\<forall>n c. (m(name \<mapsto> Dir sub)) n = Some (File c) \<longrightarrow> m n = Some (File c))"
  by auto

lemma demo_tool_effect:
  assumes "demo_tool name (Dir sub) d r = Inr r'" and "lookup r d = Some (Dir es)"
    and "name \<in> {''.venv'', ''.git''}"
  shows "\<exists>es'. lookup r' d = Some (Dir es') \<and> tools_effect es es'"
proof (cases "update_dir d (\<lambda>es. Inr (AList.update name (Dir sub) es)) r")
  case (Inl e)
  with assms(1) have "r' = r" by (simp add: demo_tool_def)
  with assms(2) tools_effect_refl [of es] show ?thesis by blast
next
  case (Inr r2)
  with assms(1) have r2: "r' = r2" by (simp add: demo_tool_def)
  from update_dir_Inr [OF Inr] assms(2) have l: "lookup r2 d = Some (Dir (AList.update name (Dir sub) es))"
    by auto
  have "tools_effect es (AList.update name (Dir sub) es)"
    unfolding tools_effect_def update_conv' by (rule upd_effect_generic [OF assms(3)])
  with l r2 show ?thesis by blast
qed

lemma tool_names: "''.venv'' \<in> {''.venv'', ''.git''}" "''.git'' \<in> {''.venv'', ''.git''}"
  by simp_all

lemma demo_tools_confined: "tools_confined demo_env d"
  unfolding tools_confined_def
proof (intro allI impI)
  fix c r r' es
  assume sp: "spawn demo_env c d r = Inr r'" and l: "lookup r d = Some (Dir es)"
  then have sp': "demo_spawn ''/usr/bin/python3'' c d r = Inr r'" by (simp add: demo_env_def)
  show "\<exists>es'. lookup r' d = Some (Dir es') \<and> tools_effect es es'"
  proof (cases "c = Argv [''/usr/bin/python3'', ''-m'', ''venv'', ''.venv'']")
    case True
    with sp' have "demo_tool ''.venv'' (Dir [(''pyvenv.cfg'', File (Text ''home = /usr/bin''))]) d r = Inr r'"
      unfolding demo_spawn_def by (simp only: if_True simp_thms)
    from demo_tool_effect [OF this l tool_names(1)] show ?thesis .
  next
    case v: False
    show ?thesis
    proof (cases "c = Argv [''git'', ''init'']")
      case True
      with sp' v have "demo_tool ''.git'' (Dir [(''HEAD'', File (Text ''ref: refs/heads/main''))]) d r = Inr r'"
        unfolding demo_spawn_def by (simp only: if_True if_False simp_thms)
      from demo_tool_effect [OF this l tool_names(2)] show ?thesis .
    next
      case False
      with sp' v have "Inr r = (Inr r' :: error + node)" unfolding demo_spawn_def by (simp only: if_False simp_thms)
      then have "r' = r" by simp
      with l tools_effect_refl [of es] show ?thesis by blast
    qed
  qed
qed

lemma main_create_entry':
  assumes "main env file_path folder_name project_type git False verbose s = (Done, s')"
  shows "\<exists>m. \<forall>n. lookup (root s') (project_dir env (cwd s) file_path folder_name @ [n]) =
           written project_type m n"
  unfolding project_dir_def by (rule main_create_entry [OF assms refl])

lemma import_lines:
  "str_split CHR ''\<newline>'' ''import pandas as pd\<newline>import numpy as np'' =
     [''import pandas as pd'', ''import numpy as np'']"
  "str_split CHR ''\<newline>'' ''import numpy as np\<newline>import pandas as pd'' =
     [''import numpy as np'', ''import pandas as pd'']"
  by simp_all

subsection \<open>Facts about the concrete disks\<close>

lemma demo_no_stubs:
  "lookup (root demo_state) (project_dir demo_env (cwd demo_state) ''/tmp'' ''demo1'' @ [''solution.ipynb'']) = None"
  "lookup (root demo_state) (project_dir demo_env (cwd demo_state) ''/tmp'' ''demo1'' @ [''solution.py'']) = None"
  "lookup (root demo_state) (project_dir demo_env (cwd demo_state) ''/tmp'' ''demo1'') = None"
  by code_simp+

lemma demo_notes_dir:
  "lookup (root demo_notes) [''tmp'', ''demo1''] =
     Some (Dir [(''.venv'', Dir [(''pyvenv.cfg'', File (Text ''home = /usr/bin''))]),
                (''data'', Dir []),
                (''requirements.txt'', File (Text ''numpy'')),
                (''notes.md'', File (Text ''to do''))])"
  by code_simp

lemma demo_clean_dir:
  "lookup (root demo_clean) [''tmp'', ''demo1''] =
     Some (Dir [(''.venv'', Dir [(''pyvenv.cfg'', File (Text ''home = /usr/bin''))]),
                (''data'', Dir []),
                (''requirements.txt'', File (Text ''numpy''))])"
  by code_simp

lemma notes_unexpected:
  "''notes.md'' \<notin> set folders_to_remove \<union> set files_to_remove"
  by (simp add: folders_to_remove_def files_to_remove_def)

lemma notes_present:
  "\<exists>name. name \<notin> set folders_to_remove \<union> set files_to_remove \<and>
     map_of [(''.venv'', Dir [(''pyvenv.cfg'', File (Text ''home = /usr/bin''))]),
                (''data'', Dir []),
                (''requirements.txt'', File (Text ''numpy'')),
                (''notes.md'', File (Text ''to do''))] name \<noteq> None"
proof (intro exI conjI)
  show "''notes.md'' \<notin> set folders_to_remove \<union> set files_to_remove" by (rule notes_unexpected)
  show "map_of [(''.venv'', Dir [(''pyvenv.cfg'', File (Text ''home = /usr/bin''))]),
                (''data'', Dir []),
                (''requirements.txt'', File (Text ''numpy'')),
                (''notes.md'', File (Text ''to do''))] ''notes.md'' \<noteq> None" by simp
qed

lemma demo_clean_Done: "fst (safe_delete [''tmp'', ''demo1''] demo_clean) = Done"
  by (simp add: demo_clean_run)

subsection \<open>The environment folder\<close>







section \<open>The claims\<close>

text \<open>
  In the statements below a create run is \<open>main\<close> called with
  \<open>cleanup = False\<close>, a cleanup run is \<open>main\<close> called with
  \<open>cleanup = True\<close>, a run is successful when its outcome is \<open>Done\<close>, and
  the project directory is \<open>project_dir env (cwd s) file_path folder_name\<close>,
  with \<open>s\<close> the state in which the create run starts.
\<close>

text \<open>
  Claim C1. \<open>validate_name\<close> does not reject: for a name with a disallowed
  character it returns the error object as its result instead of raising it,
  and the command line does not call it. With the name \<open>a?b\<close> the run goes
  through and the directory is created.
\<close>

theorem validate_name_returns_the_error:
  "validate_name ''a?b'' = Inr (Some (ArgumentTypeError ''Invalid folder name supplied.'')) \<and>
   fst (run_cli demo_env demo_args demo_state) = Done \<and>
   lookup (root (snd (run_cli demo_env demo_args demo_state))) [''tmp'', ''a?b''] \<noteq> None"
  by code_simp

text \<open>
  Claim C2. Teardown of a directory that holds an entry under a name outside
  the two lists of \<open>safe_delete\<close> raises an error and leaves the directory in
  place, with every entry of such a name as it was; and when \<open>safe_delete\<close>
  ends without an error, the directory is gone and it held no such entry.
\<close>

theorem safe_delete_refuses_unexpected:
  assumes "lookup (root s) t = Some (Dir es)"
  shows "((\<exists>name. name \<notin> set folders_to_remove \<union> set files_to_remove \<and> map_of es name \<noteq> None) \<longrightarrow>
           (\<exists>e s' es'. safe_delete t s = (Raised e, s') \<and> lookup (root s') t = Some (Dir es') \<and>
              (\<forall>x. x \<notin> set folders_to_remove \<union> set files_to_remove \<longrightarrow> map_of es' x = map_of es x))) \<and>
         (fst (safe_delete t s) = Done \<longrightarrow>
           lookup (root (snd (safe_delete t s))) t = None \<and>
           (\<forall>name. map_of es name \<noteq> None \<longrightarrow> name \<in> set folders_to_remove \<union> set files_to_remove))"
proof -
  obtain out s' where run: "safe_delete t s = (out, s')" by (cases "safe_delete t s")
  note facts = safe_delete_dir [OF run assms]
  have refuses: "(\<exists>name. name \<notin> set folders_to_remove \<union> set files_to_remove \<and> map_of es name \<noteq> None) \<longrightarrow>
           (\<exists>e s' es'. safe_delete t s = (Raised e, s') \<and> lookup (root s') t = Some (Dir es') \<and>
              (\<forall>x. x \<notin> set folders_to_remove \<union> set files_to_remove \<longrightarrow> map_of es' x = map_of es x))"
  proof
    assume "\<exists>name. name \<notin> set folders_to_remove \<union> set files_to_remove \<and> map_of es name \<noteq> None"
    with facts(1) have "out \<noteq> Done" by auto
    then obtain e where "out = Raised e" by (cases out) auto
    with facts(2) run show "\<exists>e s' es'. safe_delete t s = (Raised e, s') \<and>
        lookup (root s') t = Some (Dir es') \<and>
        (\<forall>x. x \<notin> set folders_to_remove \<union> set files_to_remove \<longrightarrow> map_of es' x = map_of es x)"
      by auto
  qed
  have only_when: "fst (safe_delete t s) = Done \<longrightarrow>
           lookup (root (snd (safe_delete t s))) t = None \<and>
           (\<forall>name. map_of es name \<noteq> None \<longrightarrow> name \<in> set folders_to_remove \<union> set files_to_remove)"
  proof
    assume "fst (safe_delete t s) = Done"
    with run have "out = Done" by simp
    with facts(1) have "lookup (root s') (t @ []) = None"
      and "\<forall>x. x \<notin> set folders_to_remove \<union> set files_to_remove \<longrightarrow> map_of es x = None"
      by blast+
    with run show "lookup (root (snd (safe_delete t s))) t = None \<and>
           (\<forall>name. map_of es name \<noteq> None \<longrightarrow> name \<in> set folders_to_remove \<union> set files_to_remove)"
      by auto
  qed
  from refuses only_when show ?thesis by (rule conjI)
qed

theorem safe_delete_refuses_unexpected_witness:
  "(\<exists>e s' es'. safe_delete [''tmp'', ''demo1''] demo_notes = (Raised e, s') \<and>
      lookup (root s') [''tmp'', ''demo1''] = Some (Dir es') \<and>
      map_of es' ''notes.md'' = Some (File (Text ''to do''))) \<and>
   fst (safe_delete [''tmp'', ''demo1''] demo_clean) = Done \<and>
   lookup (root (snd (safe_delete [''tmp'', ''demo1''] demo_clean))) [''tmp'', ''demo1''] = None"
proof -
  from safe_delete_refuses_unexpected [OF demo_notes_dir, THEN conjunct1, THEN mp, OF notes_present]
  obtain e s' es' where
    run: "safe_delete [''tmp'', ''demo1''] demo_notes = (Raised e, s')" and
    dir: "lookup (root s') [''tmp'', ''demo1''] = Some (Dir es')" and
    keep: "\<forall>x. x \<notin> set folders_to_remove \<union> set files_to_remove \<longrightarrow>
         map_of es' x =
         map_of [(''.venv'', Dir [(''pyvenv.cfg'', File (Text ''home = /usr/bin''))]),
                (''data'', Dir []),
                (''requirements.txt'', File (Text ''numpy'')),
                (''notes.md'', File (Text ''to do''))] x"
    by (elim exE conjE)
  from keep [rule_format, OF notes_unexpected]
  have "map_of es' ''notes.md'' = Some (File (Text ''to do''))" by simp
  with run dir have first: "\<exists>e s' es'. safe_delete [''tmp'', ''demo1''] demo_notes = (Raised e, s') \<and>
      lookup (root s') [''tmp'', ''demo1''] = Some (Dir es') \<and>
      map_of es' ''notes.md'' = Some (File (Text ''to do''))"
    by (intro exI conjI)
  from safe_delete_refuses_unexpected [OF demo_clean_dir, THEN conjunct2, THEN mp, OF demo_clean_Done]
  have "lookup (root (snd (safe_delete [''tmp'', ''demo1''] demo_clean))) [''tmp'', ''demo1''] = None"
    by (rule conjunct1)
  with first demo_clean_Done show ?thesis by (intro conjI)
qed

text \<open>
  Claim C3, as stated, fails in two ways. The create path accepts a project
  directory that exists already: when it held a file \<open>notes.md\<close>, the create
  run succeeds and the cleanup that follows at once, nothing added, raises
  and leaves the directory. And \<open>main\<close> resolves \<open>(file_path, name)\<close>
  against the working directory, which the create run moves into the project
  directory: for a relative \<open>file_path\<close>, a cleanup in the same process looks
  for the project below the project directory and raises.
\<close>

theorem create_then_cleanup_counterexample:
  "main demo_env ''/tmp'' ''demo1'' (Some ''python'') False False True demo_with_notes
     = (Done, demo_notes_project) \<and>
   main demo_env ''/tmp'' ''demo1'' (Some ''python'') False True True
       (demo_notes_project\<lparr>cwd := []\<rparr>)
     = (Raised OSError_ENOTEMPTY, demo_with_notes) \<and>
   main demo_env ''tmp'' ''demo1'' (Some ''python'') True False True demo_state
     = (Done, demo_python_project) \<and>
   main demo_env ''tmp'' ''demo1'' (Some ''python'') True True True demo_python_project
     = (Raised (ArgumentTypeError ''Invalid file path supplied.''), demo_python_project)"
  by code_simp

text \<open>
  Claim C3, amended. Round trip. Let the project directory be absent before
  the create run, or hold nothing but scaffold entries; let the external
  programs be confined to \<open>.venv\<close> and \<open>.git\<close>; and let the cleanup run be
  started in a working directory \<open>d\<close> from which \<open>(file_path, name)\<close> names
  the same directory as it did for the create run. Then after a successful
  create run the cleanup run, with any other arguments, ends without error and
  the project directory no longer exists.
\<close>

theorem create_then_cleanup:
  assumes tools: "tools_confined env (project_dir env (cwd s) file_path folder_name)"
    and before: "lookup (root s) (project_dir env (cwd s) file_path folder_name) = None \<or>
      (project_dir env (cwd s) file_path folder_name \<noteq> [] \<and>
       (\<exists>es. lookup (root s) (project_dir env (cwd s) file_path folder_name) = Some (Dir es) \<and>
          scaffold_only es))"
    and create: "main env file_path folder_name project_type git False verbose s = (Done, s1)"
    and same: "project_dir env d file_path folder_name = project_dir env (cwd s) file_path folder_name"
  shows "\<exists>s2. main env file_path folder_name project_type' git' True verbose' (s1\<lparr>cwd := d\<rparr>)
            = (Done, s2) \<and>
          lookup (root s2) (project_dir env (cwd s) file_path folder_name) = None"
proof -
  let ?full = "project_dir env (cwd s) file_path folder_name"
  have full: "?full = resolve env (cwd s) (os_path_join (os_name env) file_path folder_name)"
    by (simp add: project_dir_def)
  from main_create_tools [OF create full tools] obtain es0 es4 es' where
    start: "(lookup (root s) ?full = None \<and> es0 = [] \<and> ?full \<noteq> []) \<or>
       lookup (root s) ?full = Some (Dir es0)" and
    eff: "tools_effect es0 es4" and
    end1: "lookup (root s1) ?full = Some (Dir es')" and
    wr: "map_of es' = written project_type (map_of es4)"
    by blast
  have ne: "?full \<noteq> []" using start before by auto
  have "scaffold_only es0"
  proof (cases "lookup (root s) ?full")
    case None
    with start have "es0 = []" by simp
    then show ?thesis by (simp add: scaffold_only_def)
  next
    case (Some v)
    with start before show ?thesis by auto
  qed
  then have "scaffold_only es4" using eff by (rule tools_effect_scaffold [rotated])
  then have sc: "scaffold_only es'" using wr by (rule written_scaffold)
  have "lookup (root (s1\<lparr>cwd := d\<rparr>)) ?full = Some (Dir es')" using end1 by simp
  from safe_delete_succeeds [OF ne this sc] obtain s2 where
    del: "safe_delete ?full (s1\<lparr>cwd := d\<rparr>) = (Done, s2)" "lookup (root s2) ?full = None"
    by blast
  have ex: "os_path_exists ?full (s1\<lparr>cwd := d\<rparr>)" using end1 by (simp add: os_path_exists_def)
  have "main env file_path folder_name project_type' git' True verbose' (s1\<lparr>cwd := d\<rparr>) =
      safe_delete ?full (s1\<lparr>cwd := d\<rparr>)"
    using ex same by (simp add: main_cleanup)
  with del show ?thesis by simp
qed

lemma demo_same_dir:
  "project_dir demo_env [] ''/tmp'' ''demo1'' = project_dir demo_env (cwd demo_state) ''/tmp'' ''demo1''"
  by (simp add: demo_state_def)

theorem create_then_cleanup_witness:
  "tools_confined demo_env (project_dir demo_env (cwd demo_state) ''/tmp'' ''demo1'') \<and>
   lookup (root demo_state) (project_dir demo_env (cwd demo_state) ''/tmp'' ''demo1'') = None \<and>
   main demo_env ''/tmp'' ''demo1'' (Some ''python'') True False True demo_state
     = (Done, demo_python_project) \<and>
   project_dir demo_env [] ''/tmp'' ''demo1'' =
     project_dir demo_env (cwd demo_state) ''/tmp'' ''demo1'' \<and>
   (\<exists>s2. main demo_env ''/tmp'' ''demo1'' None False True True (demo_python_project\<lparr>cwd := []\<rparr>)
            = (Done, s2) \<and>
          lookup (root s2) (project_dir demo_env (cwd demo_state) ''/tmp'' ''demo1'') = None)"
  by (rule conjI [OF demo_tools_confined conjI [OF demo_no_stubs(3) conjI [OF demo_run_python
        conjI [OF demo_same_dir
          create_then_cleanup [OF demo_tools_confined disjI1 [OF demo_no_stubs(3)] demo_run_python
            demo_same_dir]]]]])

text \<open>
  Claim C4. After a successful create run, \<open>requirements.txt\<close> in the project
  directory holds the package list joined by newlines: the seven names, one
  per line, without version pins and with no newline after the last, the same
  text whatever the host, the arguments and the disk were.
\<close>

theorem requirements_txt_content:
  assumes "main env file_path folder_name project_type git False verbose s = (Done, s')"
  shows "lookup (root s') (project_dir env (cwd s) file_path folder_name @ [''requirements.txt'']) =
           Some (File (Text (str_join ''\<newline>'' PACKAGES))) \<and>
         str_join ''\<newline>'' PACKAGES =
           ''numpy\<newline>pandas\<newline>openpyxl\<newline>scikit-learn\<newline>matplotlib\<newline>seaborn\<newline>notebook''"
proof -
  from main_create_entry' [OF assms] obtain m where
    "\<forall>n. lookup (root s') (project_dir env (cwd s) file_path folder_name @ [n]) = written project_type m n"
    by blast
  then have "lookup (root s') (project_dir env (cwd s) file_path folder_name @ [''requirements.txt'']) =
      written project_type m ''requirements.txt''" by (rule spec)
  then show ?thesis by (simp only: written_requirements requirements_text simp_thms)
qed

theorem requirements_txt_content_witness:
  "main demo_env ''/tmp'' ''demo1'' (Some ''python'') True False True demo_state
     = (Done, demo_python_project) \<and>
   (lookup (root demo_python_project) (project_dir demo_env (cwd demo_state) ''/tmp'' ''demo1'' @ [''requirements.txt'']) =
      Some (File (Text (str_join ''\<newline>'' PACKAGES))) \<and>
    str_join ''\<newline>'' PACKAGES =
      ''numpy\<newline>pandas\<newline>openpyxl\<newline>scikit-learn\<newline>matplotlib\<newline>seaborn\<newline>notebook'')"
  using demo_run_python requirements_txt_content [OF demo_run_python] by (rule conjI)

text \<open>
  Claim C5. After a successful create run, \<open>.gitignore\<close> in the project
  directory holds the ignore patterns joined by newlines, for every value of
  \<open>project_type\<close>.
\<close>

theorem gitignore_content:
  assumes "main env file_path folder_name project_type git False verbose s = (Done, s')"
  shows "lookup (root s') (project_dir env (cwd s) file_path folder_name @ [''.gitignore'']) =
           Some (File (Text (str_join ''\<newline>'' ignore_file_types))) \<and>
         str_join ''\<newline>'' ignore_file_types =
           ''*.txt\<newline>*.csv\<newline>*.xlsx\<newline>*.xls\<newline>*.ipynb_checkpoints\<newline>*.vscode\<newline>.git''"
proof -
  from main_create_entry' [OF assms] obtain m where
    "\<forall>n. lookup (root s') (project_dir env (cwd s) file_path folder_name @ [n]) = written project_type m n"
    by blast
  then have "lookup (root s') (project_dir env (cwd s) file_path folder_name @ [''.gitignore'']) =
      written project_type m ''.gitignore''" by (rule spec)
  then show ?thesis by (simp only: written_gitignore gitignore_text simp_thms)
qed

theorem gitignore_content_witness:
  "main demo_env ''/tmp'' ''demo1'' (Some ''jupyter-notebook'') False False True demo_state
     = (Done, demo_notebook_project) \<and>
   (lookup (root demo_notebook_project) (project_dir demo_env (cwd demo_state) ''/tmp'' ''demo1'' @ [''.gitignore'']) =
      Some (File (Text (str_join ''\<newline>'' ignore_file_types))) \<and>
    str_join ''\<newline>'' ignore_file_types =
      ''*.txt\<newline>*.csv\<newline>*.xlsx\<newline>*.xls\<newline>*.ipynb_checkpoints\<newline>*.vscode\<newline>.git'')"
  using demo_run_notebook gitignore_content [OF demo_run_notebook] by (rule conjI)

text \<open>
  Claim C6. A successful create run with \<open>project_type = jupyter-notebook\<close>
  writes \<open>solution.ipynb\<close> as a notebook of exactly two cells: a markdown cell
  with the source \<open># Solution Notebook\<close>, then a code cell with the two import
  statements for numpy and pandas.
\<close>

theorem notebook_stub_content:
  assumes "main env file_path folder_name (Some ''jupyter-notebook'') git False verbose s = (Done, s')"
  shows "lookup (root s') (project_dir env (cwd s) file_path folder_name @ [''solution.ipynb'']) =
           Some (File (Notebook
             \<lparr>nbformat = 4,
              cells = [Markdown_cell ''# Solution Notebook'',
                       Code_cell ''import numpy as np\<newline>import pandas as pd'']\<rparr>))"
proof -
  from main_create_entry' [OF assms] obtain m where
    "\<forall>n. lookup (root s') (project_dir env (cwd s) file_path folder_name @ [n]) =
       written (Some ''jupyter-notebook'') m n"
    by blast
  then have "lookup (root s') (project_dir env (cwd s) file_path folder_name @ [''solution.ipynb'']) =
      written (Some ''jupyter-notebook'') m ''solution.ipynb''" by (rule spec)
  then show ?thesis by (simp only: written_ipynb solution_notebook_cells if_True simp_thms)
qed

theorem notebook_stub_content_witness:
  "main demo_env ''/tmp'' ''demo1'' (Some ''jupyter-notebook'') False False True demo_state
     = (Done, demo_notebook_project) \<and>
   lookup (root demo_notebook_project) (project_dir demo_env (cwd demo_state) ''/tmp'' ''demo1'' @ [''solution.ipynb'']) =
     Some (File (Notebook
       \<lparr>nbformat = 4,
        cells = [Markdown_cell ''# Solution Notebook'',
                 Code_cell ''import numpy as np\<newline>import pandas as pd'']\<rparr>))"
  using demo_run_notebook notebook_stub_content [OF demo_run_notebook] by (rule conjI)

text \<open>
  Claim C7. A successful create run with \<open>project_type = python\<close> writes
  \<open>solution.py\<close> as plain text with no final newline; its two lines are the
  two import statements of the notebook's code cell. (The script has them in
  the other order: pandas first.)
\<close>

theorem script_stub_content:
  assumes "main env file_path folder_name (Some ''python'') git False verbose s = (Done, s')"
  shows "lookup (root s') (project_dir env (cwd s) file_path folder_name @ [''solution.py'']) =
           Some (File (Text ''import pandas as pd\<newline>import numpy as np'')) \<and>
         str_split CHR ''\<newline>'' ''import pandas as pd\<newline>import numpy as np'' =
           [''import pandas as pd'', ''import numpy as np''] \<and>
         cells solution_notebook =
           [Markdown_cell ''# Solution Notebook'',
            Code_cell ''import numpy as np\<newline>import pandas as pd''] \<and>
         str_split CHR ''\<newline>'' ''import numpy as np\<newline>import pandas as pd'' =
           [''import numpy as np'', ''import pandas as pd''] \<and>
         set (str_split CHR ''\<newline>'' ''import pandas as pd\<newline>import numpy as np'') =
           set (str_split CHR ''\<newline>'' ''import numpy as np\<newline>import pandas as pd'')"
proof -
  from main_create_entry' [OF assms] obtain m where
    "\<forall>n. lookup (root s') (project_dir env (cwd s) file_path folder_name @ [n]) =
       written (Some ''python'') m n"
    by blast
  then have "lookup (root s') (project_dir env (cwd s) file_path folder_name @ [''solution.py'']) =
      written (Some ''python'') m ''solution.py''" by (rule spec)
  then have "lookup (root s') (project_dir env (cwd s) file_path folder_name @ [''solution.py'']) =
           Some (File (Text ''import pandas as pd\<newline>import numpy as np''))"
    by (simp only: written_py if_True simp_thms)
  moreover have "cells solution_notebook =
           [Markdown_cell ''# Solution Notebook'',
            Code_cell ''import numpy as np\<newline>import pandas as pd'']"
    by (simp add: solution_notebook_cells)
  moreover have "set (str_split CHR ''\<newline>'' ''import pandas as pd\<newline>import numpy as np'') =
           set (str_split CHR ''\<newline>'' ''import numpy as np\<newline>import pandas as pd'')"
    unfolding import_lines by (simp add: insert_commute)
  ultimately show ?thesis using import_lines by (intro conjI)
qed

theorem script_stub_content_witness:
  "main demo_env ''/tmp'' ''demo1'' (Some ''python'') True False True demo_state
     = (Done, demo_python_project) \<and>
   (lookup (root demo_python_project) (project_dir demo_env (cwd demo_state) ''/tmp'' ''demo1'' @ [''solution.py'']) =
           Some (File (Text ''import pandas as pd\<newline>import numpy as np'')) \<and>
         str_split CHR ''\<newline>'' ''import pandas as pd\<newline>import numpy as np'' =
           [''import pandas as pd'', ''import numpy as np''] \<and>
         cells solution_notebook =
           [Markdown_cell ''# Solution Notebook'',
            Code_cell ''import numpy as np\<newline>import pandas as pd''] \<and>
         str_split CHR ''\<newline>'' ''import numpy as np\<newline>import pandas as pd'' =
           [''import numpy as np'', ''import pandas as pd''] \<and>
         set (str_split CHR ''\<newline>'' ''import pandas as pd\<newline>import numpy as np'') =
           set (str_split CHR ''\<newline>'' ''import numpy as np\<newline>import pandas as pd''))"
  using demo_run_python script_stub_content [OF demo_run_python] by (rule conjI)

text \<open>
  Claim C8. The shell command of the install step on the two
  operating-system families. On POSIX it upgrades pip and then installs the
  packages; on Windows it installs the packages and has no upgrade step.
\<close>

theorem install_command_by_os:
  "install_command Nt venv_path =
     Some (os_path_join Nt (os_path_join Nt venv_path ''Scripts'') ''activate'' @
           '' && pip install  numpy pandas openpyxl scikit-learn matplotlib seaborn notebook'') \<and>
   install_command Posix venv_path =
     Some (''source '' @ [CHR 0x27] @
           os_path_join Posix (os_path_join Posix venv_path ''bin'') ''activate'' @ [CHR 0x27] @
           '' &&                        python -m pip install --upgrade pip &&                        pip install numpy pandas openpyxl scikit-learn matplotlib seaborn notebook'')"
  by (simp add: install_command_def PACKAGES_def Let_def eval_nat_numeral)





text \<open>
  Claim C10. Frame of the teardown: whatever the outcome, \<open>safe_delete\<close>
  leaves every entry of the target directory whose name is in neither of its
  two lists, and all that lies below such an entry, as it found it.
\<close>

theorem safe_delete_frame:
  assumes "name \<notin> set folders_to_remove \<union> set files_to_remove"
  shows "lookup (root (snd (safe_delete t s))) (t @ name # q) = lookup (root s) (t @ name # q)"
proof -
  obtain out s' where run: "safe_delete t s = (out, s')" by (cases "safe_delete t s")
  have "lookup (root s') (t @ name # q) = lookup (root s) (t @ name # q)"
  proof (cases "\<exists>es. lookup (root s) t = Some (Dir es)")
    case False
    with safe_delete_no_dir [OF run] show ?thesis by simp
  next
    case True
    then obtain es where dir: "lookup (root s) t = Some (Dir es)" by blast
    note facts = safe_delete_dir [OF run dir]
    show ?thesis
    proof (cases "out = Done")
      case True
      with facts(1) assms have "lookup (root s') (t @ name # q) = None" "map_of es name = None"
        by blast+
      with dir show ?thesis by (simp add: lookup_child)
    next
      case False
      with facts(2) assms obtain es' where
        "lookup (root s') t = Some (Dir es')" "map_of es' name = map_of es name"
        by blast
      with dir show ?thesis by (simp add: lookup_child)
    qed
  qed
  with run show ?thesis by simp
qed

theorem safe_delete_frame_witness:
  "''notes.md'' \<notin> set folders_to_remove \<union> set files_to_remove \<and>
   lookup (root (snd (safe_delete [''tmp'', ''demo1''] demo_notes)))
      ([''tmp'', ''demo1''] @ ''notes.md'' # []) = Some (File (Text ''to do''))"
proof -
  have "lookup (root demo_notes) ([''tmp'', ''demo1''] @ ''notes.md'' # []) = Some (File (Text ''to do''))"
    by code_simp
  with safe_delete_frame [OF notes_unexpected, of "[''tmp'', ''demo1'']" demo_notes "[]"]
  have "lookup (root (snd (safe_delete [''tmp'', ''demo1''] demo_notes)))
      ([''tmp'', ''demo1''] @ ''notes.md'' # []) = Some (File (Text ''to do''))"
    by (simp only:)
  with notes_unexpected show ?thesis by (rule conjI)
qed

end
